theory Spec2Isabelle
  imports Main "HOL-Library.Word" "HOL-Library.AList"
begin

section \<open>The Rapunzel native helper (native-app/native-host.js)\<close>

text \<open>
  The helper is a Node.js process that reads length-prefixed JSON requests from its
  standard input, handles one at a time and writes length-prefixed JSON responses to
  its standard output. Everything the process shares with the outside world (the
  file system, child processes, the clock, Node's \<open>path\<close> and \<open>JSON\<close> modules) is a
  parameter of the model; the functions of native-host.js are translated one by one.
\<close>

subsection \<open>JavaScript values\<close>

text \<open>
  The values the program handles are those JSON can produce, and \<open>undefined\<close>.
  Numbers are modelled as integers: the program only counts with them and tests them
  for zero.
\<close>

datatype jsval =
    JUndefined
  | JNull
  | JBool bool
  | JNum int
  | JStr string
  | JArr "jsval list"
  | JObj "(string \<times> jsval) list"

text \<open>An object is the list of its own properties, each key once, in insertion order.\<close>

type_synonym obj = "(string \<times> jsval) list"

text \<open>The conversion to a boolean that \<open>if (x)\<close>, \<open>!x\<close>, \<open>x && y\<close> and \<open>x || y\<close> apply.\<close>

fun truthy :: "jsval \<Rightarrow> bool" where
  "truthy JUndefined = False"
| "truthy JNull = False"
| "truthy (JBool b) = b"
| "truthy (JNum n) = (n \<noteq> 0)"
| "truthy (JStr s) = (s \<noteq> [])"
| "truthy (JArr xs) = True"
| "truthy (JObj kvs) = True"

definition js_or :: "jsval \<Rightarrow> jsval \<Rightarrow> jsval" where
  "js_or a b = (if truthy a then a else b)"

text \<open>\<open>o.k\<close> on an object the program built itself: a missing key reads \<open>undefined\<close>.\<close>

definition obj_get :: "obj \<Rightarrow> string \<Rightarrow> jsval" where
  "obj_get ob k = (case map_of ob k of None \<Rightarrow> JUndefined | Some v \<Rightarrow> v)"

text \<open>
  \<open>v.k\<close> on a parsed JSON value: reading a property of \<open>null\<close> throws a TypeError
  (the left summand carries \<open>error.message\<close>); the keys the program reads (name,
  version, description, manifest_version) are no built-in property of a string, a
  number, a boolean or an array, which all read \<open>undefined\<close>.
\<close>

fun get_prop :: "jsval \<Rightarrow> string \<Rightarrow> string + jsval" where
  "get_prop JUndefined k = Inl (''Cannot read properties of undefined (reading '' @ k @ '')'')"
| "get_prop JNull k = Inl (''Cannot read properties of null (reading '' @ k @ '')'')"
| "get_prop (JObj kvs) k = Inr (obj_get kvs k)"
| "get_prop v k = Inr JUndefined"

text \<open>Sequencing of calls that may throw: the first exception ends the block.\<close>

definition and_then :: "'e + 'a \<Rightarrow> ('a \<Rightarrow> 'e + 'b) \<Rightarrow> 'e + 'b" where
  "and_then m f = (case m of Inl e \<Rightarrow> Inl e | Inr x \<Rightarrow> f x)"

text \<open>\<open>{...a, ...b}\<close>: the properties of \<open>b\<close> are assigned over those of \<open>a\<close>.\<close>

definition spread :: "obj \<Rightarrow> obj \<Rightarrow> obj" where
  "spread a b = foldl (\<lambda>acc kv. AList.update (fst kv) (snd kv) acc) a b"

text \<open>Decimal notation of a natural number, as a template literal prints it.\<close>

definition digit :: "nat \<Rightarrow> char" where
  "digit d = char_of (48 + d)"

fun decimal :: "nat \<Rightarrow> string" where
  "decimal n = (if n < 10 then [digit n] else decimal (n div 10) @ [digit (n mod 10)])"

declare decimal.simps [simp del]

text \<open>
  The own enumerable properties a spread copies out of a parsed JSON value: those of an
  object, the indexed characters of a string, the indexed elements of an array, none
  of \<open>null\<close>, a boolean or a number.
\<close>

fun own_props :: "jsval \<Rightarrow> obj" where
  "own_props (JObj kvs) = kvs"
| "own_props (JStr s) = map (\<lambda>i. (decimal i, JStr [s ! i])) [0..<length s]"
| "own_props (JArr xs) = map (\<lambda>i. (decimal i, xs ! i)) [0..<length xs]"
| "own_props v = []"

subsection \<open>Message framing: readMessage and sendMessage\<close>

type_synonym byte = "8 word"

text \<open>\<open>lengthBuffer.readUInt32LE(0)\<close> on the four bytes of the length prefix.\<close>

definition readUInt32LE :: "byte \<Rightarrow> byte \<Rightarrow> byte \<Rightarrow> byte \<Rightarrow> nat" where
  "readUInt32LE b0 b1 b2 b3 =
     unat b0 + 256 * unat b1 + 65536 * unat b2 + 16777216 * unat b3"

text \<open>
  \<open>lengthBuffer.writeUInt32LE(n, 0)\<close>: the four bytes, least significant first; a value
  that does not fit 32 bits throws a RangeError.
\<close>

definition writeUInt32LE :: "nat \<Rightarrow> string + byte list" where
  "writeUInt32LE n =
     (if n < 4294967296
      then Inr [of_nat (n mod 256), of_nat (n div 256 mod 256),
                of_nat (n div 65536 mod 256), of_nat (n div 16777216 mod 256)]
      else Inl ''The value of value is out of range'')"

text \<open>
  How the promise of one \<open>readMessage()\<close> call ends: \<open>resolve(message)\<close> from the
  readable handler, \<open>reject(new Error(...))\<close> from the readable handler,
  \<open>resolve(null)\<close> from the end handler, or not at all: the readable handler has
  the length prefix, calls neither \<open>resolve\<close> nor \<open>reject\<close> and reads nothing more,
  and the bytes left unread on the stream keep the end handler from running.
\<close>

datatype 'v settled =
    Resolved 'v
  | Rejected string
  | EndOfInput
  | Unsettled

text \<open>
  One call of \<open>readMessage\<close> on a stream that holds the bytes \<open>input\<close> and then ends,
  with no readable listener of an earlier call left on the stream. The parameter
  \<open>parse\<close> is \<open>JSON.parse(messageBuffer.toString('utf8'))\<close>; its left summand is
  the message of the SyntaxError. The second component is what the call left unread.
  A stream that ends inside the prefix or inside the body hands the handler a short
  buffer, nothing is settled by it, and the end handler resolves \<open>null\<close>. After a
  prefix that advertises the length 0 or a length of 1 MiB and more the handler reads
  no further: when the stream holds nothing after the prefix the end handler resolves
  \<open>null\<close>, and when it holds more the promise is never settled.
\<close>

definition readMessage :: "(byte list \<Rightarrow> string + 'v) \<Rightarrow> byte list \<Rightarrow> 'v settled \<times> byte list" where
  "readMessage parse input =
     (case input of
        b0 # b1 # b2 # b3 # rest \<Rightarrow>
          (let messageLength = readUInt32LE b0 b1 b2 b3 in
           if 0 < messageLength \<and> messageLength < 1024 * 1024
           then (if messageLength \<le> length rest
                 then (case parse (take messageLength rest) of
                         Inr message \<Rightarrow> (Resolved message, drop messageLength rest)
                       | Inl e \<Rightarrow> (Rejected (''Invalid JSON: '' @ e), drop messageLength rest))
                 else (EndOfInput, []))
           else (if rest = [] then (EndOfInput, []) else (Unsettled, rest)))
      | _ \<Rightarrow> (EndOfInput, []))"

text \<open>
  What the successive \<open>readMessage\<close> calls of the main loop come to on a stream that
  holds \<open>input\<close> and then ends, up to the first call that does not resolve to a
  message: each call that resolves removes its listener and leaves the rest of the
  stream to the next call. The list ends with the first rejection, end of input or
  unsettled promise; a call that rejects leaves its listener on the stream, and what
  later calls then read is not described here.
\<close>

function reads :: "(byte list \<Rightarrow> string + 'v) \<Rightarrow> byte list \<Rightarrow> 'v settled list" where
  "reads parse input =
     (case readMessage parse input of
        (Resolved message, rest) \<Rightarrow> Resolved message # reads parse rest
      | (Rejected e, rest) \<Rightarrow> [Rejected e]
      | (EndOfInput, rest) \<Rightarrow> [EndOfInput]
      | (Unsettled, rest) \<Rightarrow> [Unsettled])"
  by pat_completeness auto
termination
  by (relation "measure (\<lambda>(parse, input). length input)")
     (auto simp: readMessage_def Let_def split: list.splits if_splits sum.splits)

declare reads.simps [simp del]

text \<open>
  The bytes one \<open>sendMessage(message)\<close> call writes to standard output. The parameter
  \<open>stringify\<close> is \<open>Buffer.from(JSON.stringify(message), 'utf8')\<close>.
\<close>

definition sendMessage_bytes :: "('v \<Rightarrow> byte list) \<Rightarrow> 'v \<Rightarrow> string + byte list" where
  "sendMessage_bytes stringify message =
     (let messageBuffer = stringify message in
      case writeUInt32LE (length messageBuffer) of
        Inl e \<Rightarrow> Inl e
      | Inr lengthBuffer \<Rightarrow> Inr (lengthBuffer @ messageBuffer))"

subsection \<open>The environment\<close>

text \<open>
  A directory entry, as \<open>fs.readdirSync(dir, { withFileTypes: true })\<close> returns it.
\<close>

datatype dirent = Dirent (ent_name: string) (isDirectory: bool)

text \<open>
  What the process calls outside itself. \<open>'w\<close> is the state of the outside world (the
  file system and the running processes); a call that changes it returns the new one.
  A call that can throw returns \<open>error.message\<close> in the left summand, or in \<open>Some\<close>
  when it returns nothing. A child process is known by a number. \<open>spawn\<close> gets its
  arguments as the program passes them, \<open>None\<close> being \<open>undefined\<close>. \<open>stackDepth\<close>
  is the number of nested calls the engine allows before it throws a RangeError.
\<close>

record 'w env =
  platform :: string
  homedir :: string
  tmpdir :: string
  APPDATA :: "string option"
  path_join :: "string list \<Rightarrow> string"
  path_dirname :: "string \<Rightarrow> string"
  path_basename :: "string \<Rightarrow> string"
  JSON_parse :: "string \<Rightarrow> string + jsval"
  JSON_stringify :: "jsval \<Rightarrow> string"
  now :: "'w \<Rightarrow> nat"
  existsSync :: "'w \<Rightarrow> string \<Rightarrow> bool"
  readdirSync :: "'w \<Rightarrow> string \<Rightarrow> string + dirent list"
  readFileSync :: "'w \<Rightarrow> string \<Rightarrow> string + string"
  mkdirSync :: "'w \<Rightarrow> string \<Rightarrow> string option \<times> 'w"
  writeFileSync :: "'w \<Rightarrow> string \<Rightarrow> string \<Rightarrow> string option \<times> 'w"
  copyFileSync :: "'w \<Rightarrow> string \<Rightarrow> string \<Rightarrow> string option \<times> 'w"
  execSync :: "'w \<Rightarrow> string \<Rightarrow> (string + string) \<times> 'w"
  spawn :: "'w \<Rightarrow> string \<Rightarrow> string option list \<Rightarrow> (string + nat) \<times> 'w"
  kill :: "'w \<Rightarrow> nat \<Rightarrow> string option \<times> 'w"
  stackDepth :: nat

text \<open>\<open>fs.existsSync\<close> returns false for an argument that is not a path.\<close>

fun existsSync_val :: "'w env \<Rightarrow> 'w \<Rightarrow> jsval \<Rightarrow> bool" where
  "existsSync_val env w (JStr p) = existsSync env w p"
| "existsSync_val env w v = False"

text \<open>A function of \<open>path\<close> or \<open>fs\<close> called with \<open>undefined\<close> for a path throws a TypeError.\<close>

definition path_arg :: "string option \<Rightarrow> string + string" where
  "path_arg p =
     (case p of
        None \<Rightarrow> Inl ''The \"path\" argument must be of type string. Received undefined''
      | Some s \<Rightarrow> Inr s)"

subsection \<open>State\<close>

definition CONFIG_FILE :: "'w env \<Rightarrow> string" where
  "CONFIG_FILE env = path_join env [homedir env, ''.rapunzel'', ''config.json'']"

definition VERSION :: string where
  "VERSION = ''1.0.0''"

text \<open>A value of the map \<open>loadedExtensions\<close>: \<open>{ process: proc, method: 'web-ext' }\<close>.\<close>

record loaded =
  process :: "nat option"
  loadMethod :: string

text \<open>
  The global variables \<open>config\<close> and \<open>loadedExtensions\<close> (a Map, kept in insertion
  order, keyed by the path a request gave, \<open>None\<close> being \<open>undefined\<close>), with the
  objects handed to \<open>sendMessage\<close> so far (\<open>stdout\<close>, one element a frame), the
  contents \<open>saveConfig\<close> has handed to \<open>fs.writeFileSync(CONFIG_FILE, ...)\<close> so far
  (\<open>configWrites\<close>) and the outside world. The variable \<open>firefoxProcess\<close> is never
  read or assigned and is left out; so is what \<open>logError\<close> prints on standard error.
\<close>

record 'w host =
  config :: obj
  loadedExtensions :: "(string option \<times> loaded) list"
  stdout :: "obj list"
  configWrites :: "string list"
  world :: 'w

definition initial :: "'w \<Rightarrow> 'w host" where
  "initial w =
     \<lparr>config = [(''extensionFolder'', JStr []), (''firefoxPath'', JStr []),
                (''watchEnabled'', JBool False)],
      loadedExtensions = [], stdout = [], configWrites = [], world = w\<rparr>"

definition sendMessage :: "obj \<Rightarrow> 'w host \<Rightarrow> 'w host" where
  "sendMessage message st = st\<lparr>stdout := stdout st @ [message]\<rparr>"

subsection \<open>The configuration file: loadConfig and saveConfig\<close>

text \<open>The directory of the configuration file is created when it is missing.\<close>

definition ensureConfigDir :: "'w env \<Rightarrow> 'w \<Rightarrow> string option \<times> 'w" where
  "ensureConfigDir env w =
     (let configDir = path_dirname env (CONFIG_FILE env) in
      if \<not> existsSync env w configDir then mkdirSync env w configDir else (None, w))"

text \<open>Every exception inside \<open>loadConfig\<close> is caught and logged; \<open>config\<close> then keeps its value.\<close>

definition loadConfig :: "'w env \<Rightarrow> 'w host \<Rightarrow> 'w host" where
  "loadConfig env st =
     (case ensureConfigDir env (world st) of
        (Some e, w1) \<Rightarrow> st\<lparr>world := w1\<rparr>
      | (None, w1) \<Rightarrow>
          if existsSync env w1 (CONFIG_FILE env)
          then (case and_then (readFileSync env w1 (CONFIG_FILE env)) (JSON_parse env) of
                  Inl e \<Rightarrow> st\<lparr>world := w1\<rparr>
                | Inr parsed \<Rightarrow> st\<lparr>config := spread (config st) (own_props parsed), world := w1\<rparr>)
          else st\<lparr>world := w1\<rparr>)"

text \<open>
  \<open>saveConfig\<close>: \<open>JSON.stringify(config, null, 2)\<close> goes to the configuration file;
  an exception is caught and logged.
\<close>

definition saveConfig :: "'w env \<Rightarrow> 'w host \<Rightarrow> 'w host" where
  "saveConfig env st =
     (case ensureConfigDir env (world st) of
        (Some e, w1) \<Rightarrow> st\<lparr>world := w1\<rparr>
      | (None, w1) \<Rightarrow>
          (let data = JSON_stringify env (JObj (config st));
               (r, w2) = writeFileSync env w1 (CONFIG_FILE env) data
           in st\<lparr>configWrites := configWrites st @ [data], world := w2\<rparr>))"

subsection \<open>Finding the browser and the loader tool\<close>

definition backslash :: char where
  "backslash = CHR 0x5C"

definition possiblePaths :: "'w env \<Rightarrow> string list" where
  "possiblePaths env =
     (if platform env = ''win32''
      then [''C:'' @ [backslash] @ ''Program Files'' @ [backslash] @ ''Mozilla Firefox''
              @ [backslash] @ ''firefox.exe'',
            ''C:'' @ [backslash] @ ''Program Files (x86)'' @ [backslash] @ ''Mozilla Firefox''
              @ [backslash] @ ''firefox.exe'',
            path_join env [homedir env, ''AppData'', ''Local'', ''Mozilla Firefox'', ''firefox.exe'']]
      else if platform env = ''darwin''
      then [''/Applications/Firefox.app/Contents/MacOS/firefox'',
            ''/Applications/Firefox Developer Edition.app/Contents/MacOS/firefox'',
            ''/Applications/Firefox Nightly.app/Contents/MacOS/firefox'']
      else [''/usr/bin/firefox'', ''/usr/local/bin/firefox'', ''/snap/bin/firefox'',
            ''/usr/bin/firefox-developer-edition''])"

text \<open>\<open>getFirefoxPath\<close>: the configured path when it exists, else the first candidate that
  exists, else \<open>null\<close>.\<close>

definition getFirefoxPath :: "'w env \<Rightarrow> obj \<Rightarrow> 'w \<Rightarrow> jsval" where
  "getFirefoxPath env cfg w =
     (if truthy (obj_get cfg ''firefoxPath'') \<and> existsSync_val env w (obj_get cfg ''firefoxPath'')
      then obj_get cfg ''firefoxPath''
      else (case find (existsSync env w) (possiblePaths env) of
              Some p \<Rightarrow> JStr p
            | None \<Rightarrow> JNull))"

text \<open>
  \<open>result.trim()\<close> split at line feeds, first element, on the output of
  \<open>which\<close>; the white space trimmed is that of ASCII.
\<close>

definition is_space :: "char \<Rightarrow> bool" where
  "is_space c = (c \<in> set [CHR 0x20, CHR 0x09, CHR 0x0A, CHR 0x0B, CHR 0x0C, CHR 0x0D])"

definition trim :: "string \<Rightarrow> string" where
  "trim s = rev (dropWhile is_space (rev (dropWhile is_space s)))"

definition first_line :: "string \<Rightarrow> string" where
  "first_line s = takeWhile (\<lambda>c. c \<noteq> CHR 0x0A) s"

text \<open>
  \<open>findWebExt\<close>: the first line \<open>which web-ext\<close> (\<open>where\<close> on Windows) prints; when
  the command fails, the global npm path if it exists, else \<open>null\<close> (\<open>None\<close>).
\<close>

definition findWebExt :: "'w env \<Rightarrow> 'w \<Rightarrow> string option \<times> 'w" where
  "findWebExt env w =
     (let cmd = (if platform env = ''win32'' then ''where'' else ''which'') in
      case execSync env w (cmd @ '' web-ext'') of
        (Inr result, w1) \<Rightarrow> (Some (first_line (trim result)), w1)
      | (Inl e, w1) \<Rightarrow>
          (let npmGlobal =
                 (if platform env = ''win32''
                  then path_join env [case APPDATA env of None \<Rightarrow> [] | Some a \<Rightarrow> a,
                                      ''npm'', ''web-ext.cmd'']
                  else ''/usr/local/bin/web-ext'')
           in if existsSync env w1 npmGlobal then (Some npmGlobal, w1) else (None, w1)))"

subsection \<open>The extension scanner: scanExtensionsFolder\<close>

text \<open>An element of the array \<open>scanExtensionsFolder\<close> returns.\<close>

record descriptor =
  ext_name :: jsval
  ext_version :: jsval
  ext_description :: jsval
  ext_path :: string
  ext_folder :: string
  ext_manifestVersion :: jsval

definition descriptor_obj :: "descriptor \<Rightarrow> obj" where
  "descriptor_obj d =
     [(''name'', ext_name d), (''version'', ext_version d),
      (''description'', ext_description d), (''path'', JStr (ext_path d)),
      (''folder'', JStr (ext_folder d)), (''manifestVersion'', ext_manifestVersion d)]"

text \<open>
  The inner \<open>try\<close> block of the scan: read and parse the manifest, then build the
  descriptor; anything thrown on the way makes the \<open>catch\<close> skip the directory.
\<close>

definition readDescriptor :: "'w env \<Rightarrow> 'w \<Rightarrow> string \<Rightarrow> dirent \<Rightarrow> string \<Rightarrow> string + descriptor" where
  "readDescriptor env w extPath item manifestPath =
     and_then (readFileSync env w manifestPath) (\<lambda>data.
     and_then (JSON_parse env data) (\<lambda>manifest.
     and_then (get_prop manifest ''name'') (\<lambda>n.
     and_then (get_prop manifest ''version'') (\<lambda>v.
     and_then (get_prop manifest ''description'') (\<lambda>d.
     and_then (get_prop manifest ''manifest_version'') (\<lambda>mv.
       Inr \<lparr>ext_name = js_or n (JStr (ent_name item)),
            ext_version = js_or v (JStr ''0.0.0''),
            ext_description = js_or d (JStr []),
            ext_path = extPath,
            ext_folder = ent_name item,
            ext_manifestVersion = js_or mv (JNum 2)\<rparr>))))))"

text \<open>The body of the loop over the directory listing, with what it pushes.\<close>

fun scanItems :: "'w env \<Rightarrow> 'w \<Rightarrow> string \<Rightarrow> dirent list \<Rightarrow> descriptor list" where
  "scanItems env w folder [] = []"
| "scanItems env w folder (item # items) =
     (if isDirectory item
      then (let extPath = path_join env [folder, ent_name item];
                manifestPath = path_join env [extPath, ''manifest.json'']
            in if existsSync env w manifestPath
               then (case readDescriptor env w extPath item manifestPath of
                       Inr d \<Rightarrow> d # scanItems env w folder items
                     | Inl e \<Rightarrow> scanItems env w folder items)
               else scanItems env w folder items)
      else scanItems env w folder items)"

text \<open>
  \<open>scanExtensionsFolder\<close>. A folder that passes \<open>fs.existsSync\<close> is a string. When
  \<open>fs.readdirSync\<close> throws, the outer \<open>catch\<close> logs it and the empty array is
  returned.
\<close>

definition scanExtensionsFolder :: "'w env \<Rightarrow> obj \<Rightarrow> 'w \<Rightarrow> descriptor list" where
  "scanExtensionsFolder env cfg w =
     (let folder = obj_get cfg ''extensionFolder'' in
      if \<not> truthy folder \<or> \<not> existsSync_val env w folder then []
      else (case folder of
              JStr f \<Rightarrow>
                (case readdirSync env w f of
                   Inl e \<Rightarrow> []
                 | Inr items \<Rightarrow> scanItems env w f items)
            | _ \<Rightarrow> []))"

subsection \<open>The load orchestrator\<close>

text \<open>
  \<open>copyDirSync\<close>, recursive over the directory tree. The first argument bounds the
  nesting of calls as the engine's stack does. \<open>Some e\<close> is the exception thrown.
\<close>

fun copyDirSync :: "'w env \<Rightarrow> nat \<Rightarrow> 'w \<Rightarrow> string \<Rightarrow> string \<Rightarrow> string option \<times> 'w"
  and copyEntries :: "'w env \<Rightarrow> nat \<Rightarrow> 'w \<Rightarrow> string \<Rightarrow> string \<Rightarrow> dirent list \<Rightarrow> string option \<times> 'w"
where
  "copyDirSync env 0 w src dest = (Some ''Maximum call stack size exceeded'', w)"
| "copyDirSync env (Suc depth) w src dest =
     (case mkdirSync env w dest of
        (Some e, w1) \<Rightarrow> (Some e, w1)
      | (None, w1) \<Rightarrow>
          (case readdirSync env w1 src of
             Inl e \<Rightarrow> (Some e, w1)
           | Inr entries \<Rightarrow> copyEntries env depth w1 src dest entries))"
| "copyEntries env depth w src dest [] = (None, w)"
| "copyEntries env depth w src dest (entry # entries) =
     (let srcPath = path_join env [src, ent_name entry];
          destPath = path_join env [dest, ent_name entry]
      in case (if isDirectory entry
               then copyDirSync env depth w srcPath destPath
               else copyFileSync env w srcPath destPath) of
           (Some e, w1) \<Rightarrow> (Some e, w1)
         | (None, w1) \<Rightarrow> copyEntries env depth w1 src dest entries)"

text \<open>The preferences written to \<open>user.js\<close> of the temporary profile.\<close>

definition userPrefs :: string where
  "userPrefs = concat (map (\<lambda>l. l @ [CHR 0x0A])
     [[],
      ''user_pref('' @ [CHR 0x22] @ ''extensions.autoDisableScopes'' @ [CHR 0x22] @ '', 0);'',
      ''user_pref('' @ [CHR 0x22] @ ''extensions.enabledScopes'' @ [CHR 0x22] @ '', 15);'',
      ''user_pref('' @ [CHR 0x22] @ ''xpinstall.signatures.required'' @ [CHR 0x22] @ '', false);'',
      ''user_pref('' @ [CHR 0x22] @ ''devtools.chrome.enabled'' @ [CHR 0x22] @ '', true);'',
      ''user_pref('' @ [CHR 0x22] @ ''devtools.debugger.remote-enabled'' @ [CHR 0x22] @ '', true);''])"

text \<open>
  The fallback branch of \<open>loadExtensionViaRDP\<close> once a browser is found: make a
  temporary profile, write \<open>user.js\<close>, copy the extension into it. With
  \<open>undefined\<close> for the extension path, \<open>copyDirSync\<close> creates the destination and
  then \<open>fs.readdirSync(undefined)\<close> throws. The registry is not touched.
\<close>

definition prepareProfile :: "'w env \<Rightarrow> 'w \<Rightarrow> string option \<Rightarrow> (string + obj) \<times> 'w" where
  "prepareProfile env w extensionPath =
     (let tempProfile = path_join env [tmpdir env, ''rapunzel-profile-'' @ decimal (now env w)] in
      case mkdirSync env w tempProfile of
        (Some e, w1) \<Rightarrow> (Inl e, w1)
      | (None, w1) \<Rightarrow>
          (case writeFileSync env w1 (path_join env [tempProfile, ''user.js'']) userPrefs of
             (Some e, w2) \<Rightarrow> (Inl e, w2)
           | (None, w2) \<Rightarrow>
               (let extDest = path_join env [tempProfile, ''extensions'', ''temp-extension''] in
                case (case extensionPath of
                        Some src \<Rightarrow> copyDirSync env (stackDepth env) w2 src extDest
                      | None \<Rightarrow>
                          (case mkdirSync env w2 extDest of
                             (Some e, w3) \<Rightarrow> (Some e, w3)
                           | (None, w3) \<Rightarrow> (case path_arg None of
                                               Inl e \<Rightarrow> (Some e, w3)
                                             | Inr src \<Rightarrow> copyDirSync env (stackDepth env) w3 src extDest))) of
                  (Some e, w3) \<Rightarrow> (Inl e, w3)
                | (None, w3) \<Rightarrow>
                    (Inr [(''success'', JBool True), (''method'', JStr ''profile''),
                          (''profilePath'', JStr tempProfile),
                          (''note'', JStr ''Extension prepared in temporary profile'')], w3))))"

text \<open>
  \<open>loadExtensionViaRDP\<close>: the left summand is the message of the error the promise is
  rejected with (an exception thrown inside the executor rejects it too), the right
  one the object it resolves to. An empty string for the tool's path is falsy.
  \<open>proc.unref()\<close> changes nothing the model sees.
\<close>

definition loadExtensionViaRDP :: "'w env \<Rightarrow> string option \<Rightarrow> 'w host \<Rightarrow> (string + obj) \<times> 'w host" where
  "loadExtensionViaRDP env extensionPath st =
     (case findWebExt env (world st) of (webExtPath, w1) \<Rightarrow>
        (if webExtPath \<noteq> None \<and> webExtPath \<noteq> Some []
         then (case spawn env w1 (the webExtPath)
                      [Some ''run'', Some ''--source-dir'', extensionPath,
                       Some ''--no-reload'', Some ''--keep-profile-changes''] of
                 (Inl e, w2) \<Rightarrow> (Inl e, st\<lparr>world := w2\<rparr>)
               | (Inr proc, w2) \<Rightarrow>
                   (Inr [(''success'', JBool True), (''method'', JStr ''web-ext'')],
                    st\<lparr>loadedExtensions :=
                         AList.update extensionPath \<lparr>process = Some proc, loadMethod = ''web-ext''\<rparr>
                           (loadedExtensions st),
                       world := w2\<rparr>))
         else (let firefoxPath = getFirefoxPath env (config st) w1 in
               if \<not> truthy firefoxPath then (Inl ''Firefox not found'', st\<lparr>world := w1\<rparr>)
               else (case prepareProfile env w1 extensionPath of
                       (r, w2) \<Rightarrow> (r, st\<lparr>world := w2\<rparr>)))))"

text \<open>
  \<open>unloadExtension\<close>: an exception of \<open>kill\<close> is caught and dropped. A record is an
  object, hence truthy.
\<close>

definition unloadExtension :: "'w env \<Rightarrow> string option \<Rightarrow> 'w host \<Rightarrow> obj \<times> 'w host" where
  "unloadExtension env extensionPath st =
     (case map_of (loadedExtensions st) extensionPath of
        Some l \<Rightarrow>
          (let w1 = (case process l of
                       Some proc \<Rightarrow> snd (kill env (world st) proc)
                     | None \<Rightarrow> world st)
           in ([(''success'', JBool True)],
               st\<lparr>loadedExtensions := AList.delete extensionPath (loadedExtensions st),
                  world := w1\<rparr>))
      | None \<Rightarrow>
          ([(''success'', JBool False), (''error'', JStr ''Extension not found in loaded list'')], st))"

subsection \<open>The dispatcher: handleMessage and main\<close>

text \<open>
  A decoded request: a JSON object whose \<open>action\<close> and \<open>path\<close> are strings when it has
  them (\<open>None\<close> is \<open>undefined\<close>), as the extension sends them.
\<close>

record message =
  action :: "string option"
  path :: "string option"

definition path_val :: "string option \<Rightarrow> jsval" where
  "path_val p = (case p of None \<Rightarrow> JUndefined | Some s \<Rightarrow> JStr s)"

definition statusCase :: "'w env \<Rightarrow> 'w host \<Rightarrow> 'w host" where
  "statusCase env st =
     sendMessage
       [(''type'', JStr ''status''),
        (''version'', JStr VERSION),
        (''firefoxPath'', getFirefoxPath env (config st) (world st)),
        (''extensionFolder'', obj_get (config st) ''extensionFolder''),
        (''loadedCount'', JNum (int (length (loadedExtensions st))))] st"

definition extensionsList :: "'w env \<Rightarrow> 'w host \<Rightarrow> obj" where
  "extensionsList env st =
     [(''type'', JStr ''extensions_list''),
      (''extensions'',
         JArr (map (\<lambda>d. JObj (descriptor_obj d)) (scanExtensionsFolder env (config st) (world st)))),
      (''folder'', obj_get (config st) ''extensionFolder'')]"

definition scanCase :: "'w env \<Rightarrow> 'w host \<Rightarrow> 'w host" where
  "scanCase env st = sendMessage (extensionsList env st) st"

text \<open>\<open>set_folder\<close> answers with \<open>folder_set\<close> and then, after a scan, with \<open>extensions_list\<close>.\<close>

definition setFolderCase :: "'w env \<Rightarrow> message \<Rightarrow> 'w host \<Rightarrow> 'w host" where
  "setFolderCase env m st =
     (let st1 = st\<lparr>config := AList.update ''extensionFolder'' (path_val (path m)) (config st)\<rparr>;
          st2 = saveConfig env st1;
          st3 = sendMessage [(''type'', JStr ''folder_set''), (''success'', JBool True),
                             (''path'', path_val (path m))] st2
      in sendMessage (extensionsList env st3) st3)"

text \<open>What the \<open>load\<close> case reads after the load: the name in the extension's manifest.\<close>

definition manifestName :: "'w env \<Rightarrow> 'w \<Rightarrow> string option \<Rightarrow> string + jsval" where
  "manifestName env w p =
     and_then (path_arg p) (\<lambda>dir.
     and_then (readFileSync env w (path_join env [dir, ''manifest.json''])) (\<lambda>data.
     and_then (JSON_parse env data) (\<lambda>manifest.
     and_then (get_prop manifest ''name'') (\<lambda>n.
       Inr (js_or n (JStr (path_basename env dir)))))))"

definition loadFailure :: "message \<Rightarrow> string \<Rightarrow> obj" where
  "loadFailure m e =
     [(''type'', JStr ''load_result''), (''success'', JBool False), (''error'', JStr e),
      (''path'', path_val (path m))]"

text \<open>The \<open>load\<close> case: one \<open>try\<close> block around the load, the manifest and the answer.\<close>

definition loadCase :: "'w env \<Rightarrow> message \<Rightarrow> 'w host \<Rightarrow> 'w host" where
  "loadCase env m st =
     (case loadExtensionViaRDP env (path m) st of
        (Inl e, st1) \<Rightarrow> sendMessage (loadFailure m e) st1
      | (Inr result, st1) \<Rightarrow>
          (case manifestName env (world st1) (path m) of
             Inl e \<Rightarrow> sendMessage (loadFailure m e) st1
           | Inr extensionName \<Rightarrow>
               sendMessage
                 (spread [(''type'', JStr ''load_result''), (''success'', JBool True),
                          (''extensionName'', extensionName), (''path'', path_val (path m))]
                    result) st1))"

fun loadAllLoop :: "'w env \<Rightarrow> descriptor list \<Rightarrow> obj list \<Rightarrow> 'w host \<Rightarrow> obj list \<times> 'w host" where
  "loadAllLoop env [] results st = (results, st)"
| "loadAllLoop env (ext # exts) results st =
     (case loadExtensionViaRDP env (Some (ext_path ext)) st of
        (Inr r, st1) \<Rightarrow>
          loadAllLoop env exts (results @ [[(''name'', ext_name ext), (''success'', JBool True)]]) st1
      | (Inl e, st1) \<Rightarrow>
          loadAllLoop env exts
            (results @ [[(''name'', ext_name ext), (''success'', JBool False), (''error'', JStr e)]]) st1)"

definition loadAllCase :: "'w env \<Rightarrow> 'w host \<Rightarrow> 'w host" where
  "loadAllCase env st =
     (let allExtensions = scanExtensionsFolder env (config st) (world st) in
      case loadAllLoop env allExtensions [] st of
        (results, st1) \<Rightarrow>
          sendMessage
            [(''type'', JStr ''load_all_result''),
             (''results'', JArr (map JObj results)),
             (''totalLoaded'', JNum (int (length (filter (\<lambda>r. truthy (obj_get r ''success'')) results)))),
             (''totalFailed'', JNum (int (length (filter (\<lambda>r. \<not> truthy (obj_get r ''success'')) results))))]
            st1)"

definition unloadCase :: "'w env \<Rightarrow> message \<Rightarrow> 'w host \<Rightarrow> 'w host" where
  "unloadCase env m st =
     (case unloadExtension env (path m) st of
        (unloadResult, st1) \<Rightarrow>
          sendMessage
            (AList.update ''path'' (path_val (path m))
               (spread [(''type'', JStr ''unload_result'')] unloadResult)) st1)"

text \<open>
  The loop of \<open>unload_all\<close> walks the keys of the Map. Its body deletes the key it is
  at and no other, so the keys it meets are those the Map held when the loop began.
\<close>

fun unloadAllLoop :: "'w env \<Rightarrow> string option list \<Rightarrow> obj list \<Rightarrow> 'w host \<Rightarrow> obj list \<times> 'w host" where
  "unloadAllLoop env [] unloadResults st = (unloadResults, st)"
| "unloadAllLoop env (extPath # extPaths) unloadResults st =
     (case unloadExtension env extPath st of
        (result, st1) \<Rightarrow>
          unloadAllLoop env extPaths
            (unloadResults @ [spread [(''path'', path_val extPath)] result]) st1)"

definition unloadAllCase :: "'w env \<Rightarrow> 'w host \<Rightarrow> 'w host" where
  "unloadAllCase env st =
     (case unloadAllLoop env (map fst (loadedExtensions st)) [] st of
        (unloadResults, st1) \<Rightarrow>
          sendMessage
            [(''type'', JStr ''unload_all_result''),
             (''results'', JArr (map JObj unloadResults))] st1)"

definition unknownCase :: "message \<Rightarrow> 'w host \<Rightarrow> 'w host" where
  "unknownCase m st =
     sendMessage
       [(''type'', JStr ''error''),
        (''error'', JStr (''Unknown action: '' @ (case action m of None \<Rightarrow> ''undefined'' | Some a \<Rightarrow> a)))]
       st"

text \<open>
  \<open>handleMessage\<close>: the \<open>switch\<close> on \<open>message.action\<close>. No case lets an exception
  escape: each call that can throw stands in a \<open>try\<close> block of the function it is in.
\<close>

definition handleMessage :: "'w env \<Rightarrow> message \<Rightarrow> 'w host \<Rightarrow> 'w host" where
  "handleMessage env m st =
     (if action m = Some ''status'' then statusCase env st
      else if action m = Some ''scan'' then scanCase env st
      else if action m = Some ''set_folder'' then setFolderCase env m st
      else if action m = Some ''load'' then loadCase env m st
      else if action m = Some ''load_all'' then loadAllCase env st
      else if action m = Some ''unload'' then unloadCase env m st
      else if action m = Some ''unload_all'' then unloadAllCase env st
      else unknownCase m st)"

text \<open>
  The loop of \<open>main\<close> over what the successive \<open>await readMessage()\<close> come to:
  \<open>Resolved None\<close> is a frame whose body is the JSON text \<open>null\<close>, which the loop
  takes for the end of the input as it does \<open>EndOfInput\<close>; a rejection is answered
  with an \<open>error\<close> frame and the loop goes on; a promise that is never settled leaves
  the loop waiting, and nothing more is written. The loop is given the outcomes of the
  reads rather than the bytes of the stream: \<open>reads\<close> gives the outcomes for a
  stream up to the first read that does not resolve.
\<close>

fun mainLoop :: "'w env \<Rightarrow> message option settled list \<Rightarrow> 'w host \<Rightarrow> 'w host" where
  "mainLoop env [] st = st"
| "mainLoop env (Resolved None # evs) st = st"
| "mainLoop env (Resolved (Some m) # evs) st = mainLoop env evs (handleMessage env m st)"
| "mainLoop env (Rejected e # evs) st =
     mainLoop env evs (sendMessage [(''type'', JStr ''error''), (''error'', JStr e)] st)"
| "mainLoop env (EndOfInput # evs) st = st"
| "mainLoop env (Unsettled # evs) st = st"

definition main :: "'w env \<Rightarrow> 'w \<Rightarrow> message option settled list \<Rightarrow> 'w host" where
  "main env w evs = mainLoop env evs (loadConfig env (initial w))"

subsection \<open>A concrete machine\<close>

text \<open>
  An environment to run the model on: a Linux machine whose world is the number of
  processes spawned so far. \<open>path.join\<close>, \<open>path.dirname\<close> and \<open>path.basename\<close> are
  given for paths of plain segments, \<open>JSON.parse\<close> for the three manifests of the
  machine. The folder \<open>/ext\<close> holds the directories \<open>a\<close> (manifest
  \<open>{"name":"A","version":"1.0"}\<close>), \<open>b\<close> (no manifest), \<open>c\<close> (manifest
  \<open>{"name":"C"}\<close>) and \<open>n\<close> (manifest \<open>null\<close>) and the file \<open>README\<close>. There is no configuration file. \<open>which web-ext\<close> finds the
  tool, \<open>spawn\<close> starts a process and \<open>kill\<close> throws, as for a process that has exited.
\<close>

fun slash_join :: "string list \<Rightarrow> string" where
  "slash_join [] = ''.''"
| "slash_join [p] = p"
| "slash_join (p # ps) = p @ ''/'' @ slash_join ps"

definition slash_dirname :: "string \<Rightarrow> string" where
  "slash_dirname p = rev (drop 1 (dropWhile (\<lambda>c. c \<noteq> CHR ''/'') (rev p)))"

definition slash_basename :: "string \<Rightarrow> string" where
  "slash_basename p = rev (takeWhile (\<lambda>c. c \<noteq> CHR ''/'') (rev p))"

definition manifestA :: string where
  "manifestA = ''{'' @ [CHR 0x22] @ ''name'' @ [CHR 0x22] @ '':'' @ [CHR 0x22] @ ''A'' @ [CHR 0x22]
     @ '','' @ [CHR 0x22] @ ''version'' @ [CHR 0x22] @ '':'' @ [CHR 0x22] @ ''1.0'' @ [CHR 0x22] @ ''}''"

definition manifestC :: string where
  "manifestC = ''{'' @ [CHR 0x22] @ ''name'' @ [CHR 0x22] @ '':'' @ [CHR 0x22] @ ''C'' @ [CHR 0x22] @ ''}''"

definition parse_three :: "string \<Rightarrow> string + jsval" where
  "parse_three s =
     (if s = ''null'' then Inr JNull
      else if s = manifestA then Inr (JObj [(''name'', JStr ''A''), (''version'', JStr ''1.0'')])
      else if s = manifestC then Inr (JObj [(''name'', JStr ''C'')])
      else Inl ''Unexpected token'')"

definition linux_env :: "nat env" where
  "linux_env =
     \<lparr>platform = ''linux'', homedir = ''/home/u'', tmpdir = ''/tmp'', APPDATA = None,
      path_join = slash_join, path_dirname = slash_dirname, path_basename = slash_basename,
      JSON_parse = parse_three, JSON_stringify = (\<lambda>v. ''{}''),
      now = (\<lambda>w. 1700000000000 + w),
      existsSync = (\<lambda>w p. p \<in> set [''/ext'', ''/ext/a'', ''/ext/a/manifest.json'', ''/ext/b'',
                                       ''/ext/c'', ''/ext/c/manifest.json'',
                                       ''/ext/n'', ''/ext/n/manifest.json'', ''/ext/README'',
                                       ''/usr/bin/firefox'', ''/usr/bin/web-ext'', ''/home/u/.rapunzel'']),
      readdirSync = (\<lambda>w p.
         if p = ''/ext'' then Inr [Dirent ''a'' True, Dirent ''b'' True, Dirent ''c'' True,
                                  Dirent ''n'' True, Dirent ''README'' False]
         else if p = ''/ext/a'' \<or> p = ''/ext/c'' \<or> p = ''/ext/n''
         then Inr [Dirent ''manifest.json'' False]
         else if p = ''/ext/b'' then Inr []
         else Inl ''ENOENT: no such file or directory''),
      readFileSync = (\<lambda>w p.
         if p = ''/ext/a/manifest.json'' then Inr manifestA
         else if p = ''/ext/c/manifest.json'' then Inr manifestC
         else if p = ''/ext/n/manifest.json'' then Inr ''null''
         else Inl ''ENOENT: no such file or directory''),
      mkdirSync = (\<lambda>w p. (None, w)),
      writeFileSync = (\<lambda>w p d. (None, w)),
      copyFileSync = (\<lambda>w p q. (None, w)),
      execSync = (\<lambda>w c. (Inr (''/usr/bin/web-ext'' @ [CHR 0x0A]), w)),
      spawn = (\<lambda>w c args. (Inr w, Suc w)),
      kill = (\<lambda>w p. (Some ''kill ESRCH'', w)),
      stackDepth = Suc (Suc (Suc (Suc 0)))\<rparr>"

text \<open>The same machine without the loader tool: \<open>which web-ext\<close> fails.\<close>

definition linux_env_no_tool :: "nat env" where
  "linux_env_no_tool =
     linux_env\<lparr>execSync := (\<lambda>w c. (Inl ''Command failed: which web-ext'', w)),
               existsSync := (\<lambda>w p. p \<noteq> ''/usr/bin/web-ext'' \<and> existsSync linux_env w p)\<rparr>"

definition request :: "string \<Rightarrow> string option \<Rightarrow> message" where
  "request a p = \<lparr>action = Some a, path = p\<rparr>"

text \<open>
  \<open>JSON.stringify\<close> and \<open>JSON.parse\<close>, with the UTF-8 coding of the buffers, for
  the strings of printable ASCII characters other than the double quote and the
  backslash: the JSON text of such a string is the string between double quotes.
\<close>

definition stringify_ascii :: "string \<Rightarrow> byte list" where
  "stringify_ascii s = 0x22 # map (\<lambda>c. of_nat (of_char c)) s @ [0x22]"

definition parse_ascii :: "byte list \<Rightarrow> string + string" where
  "parse_ascii b =
     (if 2 \<le> length b \<and> hd b = 0x22 \<and> last b = 0x22
      then Inr (map (\<lambda>x. char_of (unat x)) (butlast (tl b)))
      else Inl ''Unexpected token'')"

text \<open>A string whose JSON text is exactly 1 MiB long.\<close>

definition mebibyte_string :: string where
  "mebibyte_string = replicate 1048574 (CHR ''a'')"

text \<open>
  The machine without the loader tool on which the manifest of \<open>/ext/a\<close> cannot be
  copied: \<open>fs.copyFileSync\<close> throws on it.
\<close>

definition linux_env_locked :: "nat env" where
  "linux_env_locked =
     linux_env_no_tool\<lparr>copyFileSync := (\<lambda>w p q. if p = ''/ext/a/manifest.json''
                                                then (Some ''EACCES: permission denied'', w)
                                                else (None, w))\<rparr>"

text \<open>The state of the helper at its start with \<open>/ext\<close> for its extension folder.\<close>

definition folder_set :: "nat host" where
  "folder_set =
     (initial 0)\<lparr>config := AList.update ''extensionFolder'' (JStr ''/ext'') (config (initial (0::nat)))\<rparr>"

text \<open>The state of the helper on the concrete machine after it has loaded \<open>/ext/a\<close>.\<close>

definition one_loaded :: "nat host" where
  "one_loaded =
     (initial 0)\<lparr>loadedExtensions := [(Some ''/ext/a'', \<lparr>process = Some 0, loadMethod = ''web-ext''\<rparr>)],
                 world := 1\<rparr>"

subsection \<open>Notions the properties are stated with\<close>

text \<open>An awaited read that hands the dispatcher a \<open>set_folder\<close> request.\<close>

fun setsFolder :: "message option settled \<Rightarrow> bool" where
  "setsFolder (Resolved (Some m)) = (action m = Some ''set_folder'')"
| "setsFolder ev = False"

text \<open>
  An awaited read after which the loop goes on and which performs no \<open>set_folder\<close>,
  \<open>load\<close> or \<open>load_all\<close>: a rejected read, or a request with another action.
\<close>

fun quiet :: "message option settled \<Rightarrow> bool" where
  "quiet (Resolved (Some m)) =
     (action m \<noteq> Some ''set_folder'' \<and> action m \<noteq> Some ''load'' \<and> action m \<noteq> Some ''load_all'')"
| "quiet (Rejected e) = True"
| "quiet ev = False"

text \<open>
  An entry of the listing of \<open>folder\<close> that is a directory holding a manifest file
  that can be read and parses as JSON.
\<close>

definition manifestParses :: "'w env \<Rightarrow> 'w \<Rightarrow> string \<Rightarrow> dirent \<Rightarrow> bool" where
  "manifestParses env w folder item =
     (let manifestPath = path_join env [path_join env [folder, ent_name item], ''manifest.json''] in
      isDirectory item \<and> existsSync env w manifestPath \<and>
      (case and_then (readFileSync env w manifestPath) (JSON_parse env) of
         Inr manifest \<Rightarrow> True
       | Inl e \<Rightarrow> False))"

text \<open>The same, with a manifest that parses to a value whose properties can be read.\<close>

definition manifestUsable :: "'w env \<Rightarrow> 'w \<Rightarrow> string \<Rightarrow> dirent \<Rightarrow> bool" where
  "manifestUsable env w folder item =
     (let manifestPath = path_join env [path_join env [folder, ent_name item], ''manifest.json''] in
      isDirectory item \<and> existsSync env w manifestPath \<and>
      (case and_then (readFileSync env w manifestPath) (JSON_parse env) of
         Inr manifest \<Rightarrow> manifest \<noteq> JNull \<and> manifest \<noteq> JUndefined
       | Inl e \<Rightarrow> False))"

text \<open>Every record of the registry was made by the external loader.\<close>

definition allWebExt :: "'w host \<Rightarrow> bool" where
  "allWebExt st = (\<forall>kl \<in> set (loadedExtensions st). loadMethod (snd kl) = ''web-ext'')"

text \<open>
  Applying an operation to the items of a list one after the other, each on the state
  the one before it left, and collecting what the operations return.
\<close>

primrec sequentially :: "('a \<Rightarrow> 's \<Rightarrow> 'r \<times> 's) \<Rightarrow> 'a list \<Rightarrow> 's \<Rightarrow> 'r list \<times> 's" where
  "sequentially f [] s = ([], s)"
| "sequentially f (x # xs) s =
     (case f x s of
        (r, s1) \<Rightarrow> (case sequentially f xs s1 of (rs, s2) \<Rightarrow> (r # rs, s2)))"

text \<open>The entry \<open>load_all\<close> reports for a candidate, given how its load ended.\<close>

definition loadAllEntry :: "descriptor \<Rightarrow> string + obj \<Rightarrow> obj" where
  "loadAllEntry ext outcome =
     (case outcome of
        Inr r \<Rightarrow> [(''name'', ext_name ext), (''success'', JBool True)]
      | Inl e \<Rightarrow> [(''name'', ext_name ext), (''success'', JBool False), (''error'', JStr e)])"

text \<open>The entry \<open>unload_all\<close> reports for a key, given what its unload returned.\<close>

definition unloadAllEntry :: "string option \<Rightarrow> obj \<Rightarrow> obj" where
  "unloadAllEntry extPath result = spread [(''path'', path_val extPath)] result"

text \<open>The best-effort termination of the process of a record, on the outside world.\<close>

definition killRecorded :: "'w env \<Rightarrow> 'w \<Rightarrow> loaded \<Rightarrow> 'w" where
  "killRecorded env w l = (case process l of Some proc \<Rightarrow> snd (kill env w proc) | None \<Rightarrow> w)"

section \<open>Properties\<close>

subsection \<open>Framing\<close>

lemma four_bytes_of_nat:
  assumes lt: "(n::nat) < 4294967296"
  shows "n mod 256 + 256 * (n div 256 mod 256) + 65536 * (n div 65536 mod 256)
           + 16777216 * (n div 16777216 mod 256) = n"
proof -
  define q1 r0 where "q1 = n div 256" and "r0 = n mod 256"
  define q2 r1 where "q2 = q1 div 256" and "r1 = q1 mod 256"
  define q3 r2 where "q3 = q2 div 256" and "r2 = q2 mod 256"
  have a: "n = 256 * q1 + r0" by (simp add: q1_def r0_def)
  have b: "q1 = 256 * q2 + r1" by (simp add: q2_def r1_def)
  have c: "q2 = 256 * q3 + r2" by (simp add: q3_def r2_def)
  have e: "n div 65536 = q2" by (simp add: q2_def q1_def div_mult2_eq[symmetric])
  have f: "n div 16777216 = q3" by (simp add: q3_def q2_def q1_def div_mult2_eq[symmetric])
  have d: "q3 < 256" using lt unfolding f[symmetric] by (simp add: less_mult_imp_div_less)
  have "r0 + 256 * r1 + 65536 * r2 + 16777216 * q3 = n"
    using a b c by linarith
  then show ?thesis
    using d by (simp add: e f r0_def r1_def r2_def q1_def[symmetric])
qed

lemma readUInt32LE_writeUInt32LE:
  assumes "writeUInt32LE n = Inr [b0, b1, b2, b3]"
  shows "readUInt32LE b0 b1 b2 b3 = n"
proof -
  from assms have lt: "n < 4294967296"
    by (simp add: writeUInt32LE_def split: if_splits)
  from assms lt have "b0 = of_nat (n mod 256)" "b1 = of_nat (n div 256 mod 256)"
     "b2 = of_nat (n div 65536 mod 256)" "b3 = of_nat (n div 16777216 mod 256)"
    by (simp_all add: writeUInt32LE_def)
  then have "readUInt32LE b0 b1 b2 b3 =
      n mod 256 + 256 * (n div 256 mod 256) + 65536 * (n div 65536 mod 256)
        + 16777216 * (n div 16777216 mod 256)"
    by (simp add: readUInt32LE_def unat_of_nat)
  also from lt have "\<dots> = n"
    by (rule four_bytes_of_nat)
  finally show ?thesis .
qed

text \<open>
  A frame written by \<open>sendMessage\<close> whose body is between 1 and 1048575 bytes long is
  read back by \<open>readMessage\<close>, whatever follows it on the stream, provided
  \<open>JSON.parse\<close> undoes \<open>JSON.stringify\<close> on the value.
\<close>

lemma readMessage_sendMessage_bytes:
  assumes "sendMessage_bytes stringify v = Inr frame"
    and "parse (stringify v) = Inr v"
    and "0 < length (stringify v)" and "length (stringify v) < 1048576"
  shows "readMessage parse (frame @ rest) = (Resolved v, rest)"
proof -
  from assms(1) obtain lengthBuffer
    where w: "writeUInt32LE (length (stringify v)) = Inr lengthBuffer"
      and f: "frame = lengthBuffer @ stringify v"
    by (auto simp: sendMessage_bytes_def Let_def split: sum.splits)
  from w obtain b0 b1 b2 b3 where l: "lengthBuffer = [b0, b1, b2, b3]"
    by (auto simp: writeUInt32LE_def split: if_splits)
  from w l have r: "readUInt32LE b0 b1 b2 b3 = length (stringify v)"
    by (simp add: readUInt32LE_writeUInt32LE)
  show ?thesis
    using assms(2-4) by (simp add: readMessage_def f l r)
qed

text \<open>The main loop reads the frames \<open>sendMessage\<close> writes one after the other.\<close>

lemma reads_sendMessage_bytes:
  assumes "sendMessage_bytes stringify v = Inr frame"
    and "parse (stringify v) = Inr v"
    and "0 < length (stringify v)" and "length (stringify v) < 1048576"
  shows "reads parse (frame @ rest) = Resolved v # reads parse rest"
  using readMessage_sendMessage_bytes [of stringify v frame parse rest] assms
  by (subst reads.simps) simp

text \<open>The only rejection of \<open>readMessage\<close> is that of a complete body that does not parse.\<close>

lemma readMessage_Rejected:
  "fst (readMessage parse input) = Rejected msg \<longleftrightarrow>
     (\<exists>b0 b1 b2 b3 rest e.
        input = b0 # b1 # b2 # b3 # rest \<and>
        0 < readUInt32LE b0 b1 b2 b3 \<and> readUInt32LE b0 b1 b2 b3 < 1048576 \<and>
        readUInt32LE b0 b1 b2 b3 \<le> length rest \<and>
        parse (take (readUInt32LE b0 b1 b2 b3) rest) = Inl e \<and>
        msg = ''Invalid JSON: '' @ e)"
  by (auto simp: readMessage_def Let_def split: list.splits sum.splits)

lemma parse_ascii_stringify_ascii: "parse_ascii (stringify_ascii s) = Inr s"
proof -
  have "map (\<lambda>x. char_of (unat x)) (map (\<lambda>c. of_nat (of_char c) :: byte) s) = s"
    by (induction s) (simp_all add: unat_of_nat)
  then show ?thesis
    by (simp add: parse_ascii_def stringify_ascii_def butlast_append)
qed

lemma length_stringify_ascii: "length (stringify_ascii s) = length s + 2"
  by (simp add: stringify_ascii_def)

lemma length_mebibyte_string: "length (stringify_ascii mebibyte_string) = 1048576"
  by (simp only: length_stringify_ascii mebibyte_string_def length_replicate)

text \<open>
  C3. The claim: decoding the frame \<open>sendMessage\<close> writes for a JSON value gives the
  value back whenever its JSON text is at most 1 MiB (1048576 bytes) long. On the
  string of 1048574 letters \<open>a\<close>, whose JSON text is exactly 1048576 bytes long and
  parses back to it, the frame begins with the length bytes 0, 0, 16, 0 and
  \<open>readMessage\<close> never settles, so the loop of \<open>main\<close> is never handed the
  value: the guard \<open>messageLength < 1024 * 1024\<close>, commented
  \<open>Max 1MB\<close>, leaves the length 1048576 out, and the handler has no other branch.
\<close>

theorem readMessage_mebibyte_frame:
  "parse_ascii (stringify_ascii mebibyte_string) = Inr mebibyte_string \<and>
   length (stringify_ascii mebibyte_string) = 1048576 \<and>
   sendMessage_bytes stringify_ascii mebibyte_string
     = Inr (0 # 0 # 16 # 0 # stringify_ascii mebibyte_string) \<and>
   readMessage parse_ascii (0 # 0 # 16 # 0 # stringify_ascii mebibyte_string)
     = (Unsettled, stringify_ascii mebibyte_string) \<and>
   reads parse_ascii (0 # 0 # 16 # 0 # stringify_ascii mebibyte_string) = [Unsettled]"
proof -
  have w: "writeUInt32LE 1048576 = Inr [0, 0, 16, 0]"
    by (simp add: writeUInt32LE_def)
  have r: "readUInt32LE 0 0 16 0 = 1048576"
    by (simp add: readUInt32LE_def)
  have s: "sendMessage_bytes stringify_ascii mebibyte_string
     = Inr (0 # 0 # 16 # 0 # stringify_ascii mebibyte_string)"
    by (simp add: sendMessage_bytes_def Let_def length_mebibyte_string w)
  have n: "stringify_ascii mebibyte_string \<noteq> []"
    by (simp add: stringify_ascii_def)
  have d: "readMessage parse_ascii (0 # 0 # 16 # 0 # stringify_ascii mebibyte_string)
     = (Unsettled, stringify_ascii mebibyte_string)"
    by (simp add: readMessage_def r n)
  have e: "reads parse_ascii (0 # 0 # 16 # 0 # stringify_ascii mebibyte_string) = [Unsettled]"
    by (subst reads.simps) (simp add: d)
  from s d e show ?thesis
    by (simp only: parse_ascii_stringify_ascii length_mebibyte_string simp_thms)
qed

text \<open>
  C4. The claim: a frame that advertises the length 0, or a length above 1 MiB, or whose
  body does not parse, makes the decoder fail, the failure is answered with an error
  frame and the loop reads on. A frame that advertises the length 0 (bytes 0, 0, 0, 0)
  and one that advertises 1048577 (bytes 1, 0, 16, 0) never make \<open>readMessage\<close>
  reject: with bytes after them on the stream the promise is never settled, with
  none it resolves \<open>null\<close> as at the end of the input. Either way the loop of
  \<open>main\<close> writes no frame and handles no request that follows on the stream.
\<close>

theorem readMessage_bad_length:
  "readMessage parse (0 # 0 # 0 # 0 # rest)
     = (if rest = [] then (EndOfInput, []) else (Unsettled, rest)) \<and>
   readMessage parse (1 # 0 # 16 # 0 # rest)
     = (if rest = [] then (EndOfInput, []) else (Unsettled, rest)) \<and>
   mainLoop env (reads parse' (0 # 0 # 0 # 0 # rest)) st = st \<and>
   mainLoop env (reads parse' (1 # 0 # 16 # 0 # rest)) st = st"
proof -
  have a: "\<And>p. readMessage p (0 # 0 # 0 # 0 # rest)
      = (if rest = [] then (EndOfInput, []) else (Unsettled, rest))"
    by (simp add: readMessage_def readUInt32LE_def)
  have b: "\<And>p. readMessage p (1 # 0 # 16 # 0 # rest)
      = (if rest = [] then (EndOfInput, []) else (Unsettled, rest))"
    by (simp add: readMessage_def readUInt32LE_def)
  have c: "reads parse' (0 # 0 # 0 # 0 # rest) = (if rest = [] then [EndOfInput] else [Unsettled])"
    by (subst reads.simps) (simp add: a)
  have d: "reads parse' (1 # 0 # 16 # 0 # rest) = (if rest = [] then [EndOfInput] else [Unsettled])"
    by (subst reads.simps) (simp add: b)
  have e: "mainLoop env (reads parse' (0 # 0 # 0 # 0 # rest)) st = st"
    by (simp add: c)
  have f: "mainLoop env (reads parse' (1 # 0 # 16 # 0 # rest)) st = st"
    by (simp add: d)
  from a [of parse] b [of parse] e f show ?thesis
    by (intro conjI)
qed

subsection \<open>Objects\<close>

lemma obj_get_Nil: "obj_get [] k = JUndefined"
  by (simp add: obj_get_def)

lemma obj_get_Cons: "obj_get ((k, v) # ob) k' = (if k = k' then v else obj_get ob k')"
  by (simp add: obj_get_def)

subsection \<open>What the handlers leave alone\<close>

lemma sendMessage_fields [simp]:
  "stdout (sendMessage msg st) = stdout st @ [msg]"
  "config (sendMessage msg st) = config st"
  "configWrites (sendMessage msg st) = configWrites st"
  "loadedExtensions (sendMessage msg st) = loadedExtensions st"
  "world (sendMessage msg st) = world st"
  by (simp_all add: sendMessage_def)

lemma saveConfig_fields [simp]:
  "stdout (saveConfig env st) = stdout st"
  "config (saveConfig env st) = config st"
  "loadedExtensions (saveConfig env st) = loadedExtensions st"
  by (simp_all add: saveConfig_def Let_def split: prod.splits option.splits)

lemma loadConfig_fields [simp]:
  "stdout (loadConfig env st) = stdout st"
  "configWrites (loadConfig env st) = configWrites st"
  "loadedExtensions (loadConfig env st) = loadedExtensions st"
  by (simp_all add: loadConfig_def split: prod.splits option.splits sum.splits)

lemma loadExtensionViaRDP_fields [simp]:
  "stdout (snd (loadExtensionViaRDP env p st)) = stdout st"
  "config (snd (loadExtensionViaRDP env p st)) = config st"
  "configWrites (snd (loadExtensionViaRDP env p st)) = configWrites st"
  by (simp_all add: loadExtensionViaRDP_def Let_def split: prod.splits sum.splits)

lemma unloadExtension_fields [simp]:
  "stdout (snd (unloadExtension env p st)) = stdout st"
  "config (snd (unloadExtension env p st)) = config st"
  "configWrites (snd (unloadExtension env p st)) = configWrites st"
  by (simp_all add: unloadExtension_def Let_def split: option.splits)

lemma loadAllLoop_fields [simp]:
  "stdout (snd (loadAllLoop env exts results st)) = stdout st \<and>
   config (snd (loadAllLoop env exts results st)) = config st \<and>
   configWrites (snd (loadAllLoop env exts results st)) = configWrites st"
proof (induction exts arbitrary: results st)
  case Nil
  show ?case by simp
next
  case (Cons ext exts)
  obtain r st1 where l: "loadExtensionViaRDP env (Some (ext_path ext)) st = (r, st1)"
    by (cases "loadExtensionViaRDP env (Some (ext_path ext)) st")
  then have "st1 = snd (loadExtensionViaRDP env (Some (ext_path ext)) st)"
    by simp
  then have "stdout st1 = stdout st" "config st1 = config st" "configWrites st1 = configWrites st"
    by simp_all
  with l Cons.IH show ?case
    by (cases r) simp_all
qed

lemma unloadAllLoop_fields [simp]:
  "stdout (snd (unloadAllLoop env ps results st)) = stdout st \<and>
   config (snd (unloadAllLoop env ps results st)) = config st \<and>
   configWrites (snd (unloadAllLoop env ps results st)) = configWrites st"
proof (induction ps arbitrary: results st)
  case Nil
  show ?case by simp
next
  case (Cons p ps)
  obtain r st1 where l: "unloadExtension env p st = (r, st1)"
    by (cases "unloadExtension env p st")
  then have "st1 = snd (unloadExtension env p st)"
    by simp
  then have "stdout st1 = stdout st" "config st1 = config st" "configWrites st1 = configWrites st"
    by simp_all
  with l Cons.IH show ?case
    by simp
qed

subsection \<open>The frames of one request\<close>

lemma statusCase_stdout: "\<exists>f. stdout (statusCase env st) = stdout st @ [f]"
  by (simp add: statusCase_def)

lemma scanCase_stdout: "\<exists>f. stdout (scanCase env st) = stdout st @ [f]"
  by (simp add: scanCase_def)

lemma setFolderCase_stdout:
  "\<exists>f g. stdout (setFolderCase env m st) = stdout st @ [f, g] \<and>
     obj_get f ''type'' = JStr ''folder_set'' \<and> obj_get g ''type'' = JStr ''extensions_list''"
  by (simp add: setFolderCase_def Let_def obj_get_def extensionsList_def)

lemma loadCase_stdout: "\<exists>f. stdout (loadCase env m st) = stdout st @ [f]"
proof -
  obtain r st1 where l: "loadExtensionViaRDP env (path m) st = (r, st1)"
    by (cases "loadExtensionViaRDP env (path m) st")
  then have "st1 = snd (loadExtensionViaRDP env (path m) st)"
    by simp
  then have "stdout st1 = stdout st"
    by simp
  with l show ?thesis
    by (simp add: loadCase_def split: sum.splits)
qed

lemma loadAllCase_stdout: "\<exists>f. stdout (loadAllCase env st) = stdout st @ [f]"
proof -
  obtain rs st1
    where l: "loadAllLoop env (scanExtensionsFolder env (config st) (world st)) [] st = (rs, st1)"
    by (cases "loadAllLoop env (scanExtensionsFolder env (config st) (world st)) [] st")
  then have "st1 = snd (loadAllLoop env (scanExtensionsFolder env (config st) (world st)) [] st)"
    by simp
  then have "stdout st1 = stdout st"
    by simp
  with l show ?thesis
    by (simp add: loadAllCase_def Let_def)
qed

lemma unloadCase_stdout: "\<exists>f. stdout (unloadCase env m st) = stdout st @ [f]"
proof -
  obtain r st1 where l: "unloadExtension env (path m) st = (r, st1)"
    by (cases "unloadExtension env (path m) st")
  then have "st1 = snd (unloadExtension env (path m) st)"
    by simp
  then have "stdout st1 = stdout st"
    by simp
  with l show ?thesis
    by (simp add: unloadCase_def)
qed

lemma unloadAllCase_stdout: "\<exists>f. stdout (unloadAllCase env st) = stdout st @ [f]"
proof -
  obtain rs st1 where l: "unloadAllLoop env (map fst (loadedExtensions st)) [] st = (rs, st1)"
    by (cases "unloadAllLoop env (map fst (loadedExtensions st)) [] st")
  then have "st1 = snd (unloadAllLoop env (map fst (loadedExtensions st)) [] st)"
    by simp
  then have "stdout st1 = stdout st"
    by simp
  with l show ?thesis
    by (simp add: unloadAllCase_def)
qed

lemma unknownCase_stdout: "\<exists>f. stdout (unknownCase m st) = stdout st @ [f]"
  by (simp add: unknownCase_def)

lemma handleMessage_one_frame:
  assumes "action m \<noteq> Some ''set_folder''"
  shows "\<exists>f. stdout (handleMessage env m st) = stdout st @ [f]"
  using assms statusCase_stdout [of env st] scanCase_stdout [of env st]
    loadCase_stdout [of env m st] loadAllCase_stdout [of env st]
    unloadCase_stdout [of env m st] unloadAllCase_stdout [of env st]
    unknownCase_stdout [of m st]
  by (simp add: handleMessage_def)

lemma handleMessage_stdout: "\<exists>frames. stdout (handleMessage env m st) = stdout st @ frames"
proof (cases "action m = Some ''set_folder''")
  case True
  from setFolderCase_stdout [of env m st] obtain f g
    where "stdout (setFolderCase env m st) = stdout st @ [f, g]" by blast
  with True show ?thesis
    by (simp add: handleMessage_def)
next
  case False
  from handleMessage_one_frame [OF False, of env st] show ?thesis
    by blast
qed

lemma mainLoop_stdout: "\<exists>later. stdout (mainLoop env evs st) = stdout st @ later"
proof (induction env evs st rule: mainLoop.induct)
  case (3 env m evs st)
  from handleMessage_stdout [of env m st] obtain frames
    where "stdout (handleMessage env m st) = stdout st @ frames" by blast
  with 3 show ?case by auto
next
  case (4 env e evs st)
  then show ?case by auto
qed simp_all

subsection \<open>The concrete machine, evaluated\<close>

lemma linux_env_fields [simp]:
  "platform linux_env = ''linux''"
  "homedir linux_env = ''/home/u''"
  "tmpdir linux_env = ''/tmp''"
  "APPDATA linux_env = None"
  "path_join linux_env = slash_join"
  "path_dirname linux_env = slash_dirname"
  "path_basename linux_env = slash_basename"
  "JSON_parse linux_env = parse_three"
  "JSON_stringify linux_env v = ''{}''"
  "now linux_env w = 1700000000000 + w"
  "mkdirSync linux_env w p = (None, w)"
  "writeFileSync linux_env w p d = (None, w)"
  "copyFileSync linux_env w p q = (None, w)"
  "execSync linux_env w c = (Inr (''/usr/bin/web-ext'' @ [CHR 0x0A]), w)"
  "spawn linux_env w c args = (Inr w, Suc w)"
  "kill linux_env w k = (Some ''kill ESRCH'', w)"
  "stackDepth linux_env = Suc (Suc (Suc (Suc 0)))"
  by (simp_all add: linux_env_def)

lemma linux_env_existsSync:
  "existsSync linux_env w p =
     (p \<in> set [''/ext'', ''/ext/a'', ''/ext/a/manifest.json'', ''/ext/b'',
               ''/ext/c'', ''/ext/c/manifest.json'',
               ''/ext/n'', ''/ext/n/manifest.json'', ''/ext/README'',
               ''/usr/bin/firefox'', ''/usr/bin/web-ext'', ''/home/u/.rapunzel''])"
  by (simp add: linux_env_def)

lemma linux_env_readdirSync:
  "readdirSync linux_env w p =
     (if p = ''/ext'' then Inr [Dirent ''a'' True, Dirent ''b'' True, Dirent ''c'' True,
                               Dirent ''n'' True, Dirent ''README'' False]
      else if p = ''/ext/a'' \<or> p = ''/ext/c'' \<or> p = ''/ext/n''
      then Inr [Dirent ''manifest.json'' False]
      else if p = ''/ext/b'' then Inr []
      else Inl ''ENOENT: no such file or directory'')"
  by (simp add: linux_env_def)

lemma linux_env_readFileSync:
  "readFileSync linux_env w p =
     (if p = ''/ext/a/manifest.json'' then Inr manifestA
      else if p = ''/ext/c/manifest.json'' then Inr manifestC
      else if p = ''/ext/n/manifest.json'' then Inr ''null''
      else Inl ''ENOENT: no such file or directory'')"
  by (simp add: linux_env_def)

lemma parse_three_values [simp]:
  "parse_three manifestA = Inr (JObj [(''name'', JStr ''A''), (''version'', JStr ''1.0'')])"
  "parse_three manifestC = Inr (JObj [(''name'', JStr ''C'')])"
  "parse_three ''null'' = Inr JNull"
  by (simp_all add: parse_three_def manifestA_def manifestC_def)

lemma linux_scan:
  "obj_get cfg ''extensionFolder'' = JStr ''/ext'' \<Longrightarrow>
   scanExtensionsFolder linux_env cfg w =
     [\<lparr>ext_name = JStr ''A'', ext_version = JStr ''1.0'', ext_description = JStr [],
       ext_path = ''/ext/a'', ext_folder = ''a'', ext_manifestVersion = JNum 2\<rparr>,
      \<lparr>ext_name = JStr ''C'', ext_version = JStr ''0.0.0'', ext_description = JStr [],
       ext_path = ''/ext/c'', ext_folder = ''c'', ext_manifestVersion = JNum 2\<rparr>]"
  by (simp add: scanExtensionsFolder_def linux_env_existsSync linux_env_readdirSync
      linux_env_readFileSync readDescriptor_def and_then_def js_or_def obj_get_Nil obj_get_Cons)

lemma linux_CONFIG_FILE: "CONFIG_FILE linux_env = ''/home/u/.rapunzel/config.json''"
  by (simp add: CONFIG_FILE_def)

lemma linux_ensureConfigDir: "ensureConfigDir linux_env w = (None, w)"
  by (simp add: ensureConfigDir_def linux_CONFIG_FILE slash_dirname_def linux_env_existsSync)

lemma linux_saveConfig:
  "saveConfig linux_env st = st\<lparr>configWrites := configWrites st @ [''{}'']\<rparr>"
  by (simp add: saveConfig_def linux_ensureConfigDir)

lemma linux_loadConfig: "loadConfig linux_env st = st"
  by (simp add: loadConfig_def linux_ensureConfigDir linux_CONFIG_FILE linux_env_existsSync)

lemma linux_findWebExt: "findWebExt linux_env w = (Some ''/usr/bin/web-ext'', w)"
  by (simp add: findWebExt_def trim_def first_line_def is_space_def)

lemma linux_getFirefoxPath:
  "obj_get cfg ''firefoxPath'' = JStr [] \<Longrightarrow> getFirefoxPath linux_env cfg w = JStr ''/usr/bin/firefox''"
  by (simp add: getFirefoxPath_def possiblePaths_def linux_env_existsSync)

lemma linux_load:
  "loadExtensionViaRDP linux_env p st =
     (Inr [(''success'', JBool True), (''method'', JStr ''web-ext'')],
      st\<lparr>loadedExtensions :=
           AList.update p \<lparr>process = Some (world st), loadMethod = ''web-ext''\<rparr> (loadedExtensions st),
         world := Suc (world st)\<rparr>)"
  by (simp add: loadExtensionViaRDP_def linux_findWebExt)

lemma linux_env_no_tool_fields [simp]:
  "platform linux_env_no_tool = ''linux''"
  "homedir linux_env_no_tool = ''/home/u''"
  "tmpdir linux_env_no_tool = ''/tmp''"
  "APPDATA linux_env_no_tool = None"
  "path_join linux_env_no_tool = slash_join"
  "path_dirname linux_env_no_tool = slash_dirname"
  "path_basename linux_env_no_tool = slash_basename"
  "JSON_parse linux_env_no_tool = parse_three"
  "now linux_env_no_tool w = 1700000000000 + w"
  "mkdirSync linux_env_no_tool w p = (None, w)"
  "writeFileSync linux_env_no_tool w p d = (None, w)"
  "copyFileSync linux_env_no_tool w p q = (None, w)"
  "execSync linux_env_no_tool w c = (Inl ''Command failed: which web-ext'', w)"
  "stackDepth linux_env_no_tool = Suc (Suc (Suc (Suc 0)))"
  "readdirSync linux_env_no_tool = readdirSync linux_env"
  "readFileSync linux_env_no_tool = readFileSync linux_env"
  "existsSync linux_env_no_tool w p = (p \<noteq> ''/usr/bin/web-ext'' \<and> existsSync linux_env w p)"
  by (simp_all add: linux_env_no_tool_def)

lemma linux_no_tool_findWebExt: "findWebExt linux_env_no_tool w = (None, w)"
  by (simp add: findWebExt_def Let_def linux_env_existsSync)

lemma linux_no_tool_getFirefoxPath:
  "obj_get cfg ''firefoxPath'' = JStr [] \<Longrightarrow>
   getFirefoxPath linux_env_no_tool cfg w = JStr ''/usr/bin/firefox''"
  by (simp add: getFirefoxPath_def possiblePaths_def linux_env_existsSync)

lemma linux_no_tool_prepareProfile:
  "prepareProfile linux_env_no_tool w (Some ''/ext/a'') =
     (Inr [(''success'', JBool True), (''method'', JStr ''profile''),
           (''profilePath'', JStr (''/tmp/rapunzel-profile-'' @ decimal (1700000000000 + w))),
           (''note'', JStr ''Extension prepared in temporary profile'')], w)"
  by (simp add: prepareProfile_def linux_env_readdirSync)

lemma linux_no_tool_load:
  "obj_get (config st) ''firefoxPath'' = JStr [] \<Longrightarrow>
   loadExtensionViaRDP linux_env_no_tool (Some ''/ext/a'') st =
     (Inr [(''success'', JBool True), (''method'', JStr ''profile''),
           (''profilePath'', JStr (''/tmp/rapunzel-profile-'' @ decimal (1700000000000 + world st))),
           (''note'', JStr ''Extension prepared in temporary profile'')], st)"
  by (simp add: loadExtensionViaRDP_def linux_no_tool_findWebExt linux_no_tool_getFirefoxPath
      linux_no_tool_prepareProfile)

lemma linux_manifestName_a:
  "manifestName linux_env w (Some ''/ext/a'') = Inr (JStr ''A'')"
  "manifestName linux_env_no_tool w (Some ''/ext/a'') = Inr (JStr ''A'')"
  by (simp_all add: manifestName_def path_arg_def and_then_def linux_env_readFileSync js_or_def obj_get_def)

lemma linux_manifestName_b:
  "manifestName linux_env w (Some ''/ext/b'') = Inl ''ENOENT: no such file or directory''"
  by (simp add: manifestName_def path_arg_def and_then_def linux_env_readFileSync)

lemma linux_env_locked_fields [simp]:
  "platform linux_env_locked = ''linux''"
  "homedir linux_env_locked = ''/home/u''"
  "tmpdir linux_env_locked = ''/tmp''"
  "APPDATA linux_env_locked = None"
  "path_join linux_env_locked = slash_join"
  "path_dirname linux_env_locked = slash_dirname"
  "path_basename linux_env_locked = slash_basename"
  "JSON_parse linux_env_locked = parse_three"
  "now linux_env_locked w = 1700000000000 + w"
  "mkdirSync linux_env_locked w p = (None, w)"
  "writeFileSync linux_env_locked w p d = (None, w)"
  "copyFileSync linux_env_locked w p q =
     (if p = ''/ext/a/manifest.json'' then (Some ''EACCES: permission denied'', w) else (None, w))"
  "execSync linux_env_locked w c = (Inl ''Command failed: which web-ext'', w)"
  "stackDepth linux_env_locked = Suc (Suc (Suc (Suc 0)))"
  "readdirSync linux_env_locked = readdirSync linux_env"
  "readFileSync linux_env_locked = readFileSync linux_env"
  "existsSync linux_env_locked w p = (p \<noteq> ''/usr/bin/web-ext'' \<and> existsSync linux_env w p)"
  by (simp_all add: linux_env_locked_def)

lemma linux_locked_scan:
  "obj_get cfg ''extensionFolder'' = JStr ''/ext'' \<Longrightarrow>
   scanExtensionsFolder linux_env_locked cfg w =
     [\<lparr>ext_name = JStr ''A'', ext_version = JStr ''1.0'', ext_description = JStr [],
       ext_path = ''/ext/a'', ext_folder = ''a'', ext_manifestVersion = JNum 2\<rparr>,
      \<lparr>ext_name = JStr ''C'', ext_version = JStr ''0.0.0'', ext_description = JStr [],
       ext_path = ''/ext/c'', ext_folder = ''c'', ext_manifestVersion = JNum 2\<rparr>]"
  by (simp add: scanExtensionsFolder_def linux_env_existsSync linux_env_readdirSync
      linux_env_readFileSync readDescriptor_def and_then_def js_or_def obj_get_Nil obj_get_Cons)

lemma linux_locked_findWebExt: "findWebExt linux_env_locked w = (None, w)"
  by (simp add: findWebExt_def Let_def linux_env_existsSync)

lemma linux_locked_getFirefoxPath:
  "obj_get cfg ''firefoxPath'' = JStr [] \<Longrightarrow>
   getFirefoxPath linux_env_locked cfg w = JStr ''/usr/bin/firefox''"
  by (simp add: getFirefoxPath_def possiblePaths_def linux_env_existsSync)

lemma linux_locked_load_a:
  "obj_get (config st) ''firefoxPath'' = JStr [] \<Longrightarrow>
   loadExtensionViaRDP linux_env_locked (Some ''/ext/a'') st = (Inl ''EACCES: permission denied'', st)"
  by (simp add: loadExtensionViaRDP_def linux_locked_findWebExt linux_locked_getFirefoxPath
      prepareProfile_def linux_env_readdirSync)

lemma linux_locked_load_c:
  "obj_get (config st) ''firefoxPath'' = JStr [] \<Longrightarrow>
   loadExtensionViaRDP linux_env_locked (Some ''/ext/c'') st =
     (Inr [(''success'', JBool True), (''method'', JStr ''profile''),
           (''profilePath'', JStr (''/tmp/rapunzel-profile-'' @ decimal (1700000000000 + world st))),
           (''note'', JStr ''Extension prepared in temporary profile'')], st)"
  by (simp add: loadExtensionViaRDP_def linux_locked_findWebExt linux_locked_getFirefoxPath
      prepareProfile_def linux_env_readdirSync)

lemma folder_set_fields:
  "obj_get (config folder_set) ''extensionFolder'' = JStr ''/ext''"
  "loadedExtensions folder_set = []"
  "stdout folder_set = []"
  by (simp_all add: folder_set_def initial_def obj_get_Cons)

subsection \<open>The claims about the dispatcher\<close>

text \<open>
  C1, as amended. Handling a request appends its response frames to the output before
  the loop awaits the next read: one frame for every action but \<open>set_folder\<close>, known
  or not, and two for \<open>set_folder\<close>, a \<open>folder_set\<close> frame followed by the
  \<open>extensions_list\<close> frame of the scan it runs. The frames of later requests follow.
\<close>

theorem handleMessage_response_frames:
  "\<exists>frames later.
     stdout (handleMessage env m st) = stdout st @ frames \<and>
     length frames = (if action m = Some ''set_folder'' then 2 else 1) \<and>
     (action m = Some ''set_folder'' \<longrightarrow>
        map (\<lambda>f. obj_get f ''type'') frames = [JStr ''folder_set'', JStr ''extensions_list'']) \<and>
     stdout (mainLoop env (Resolved (Some m) # evs) st) = stdout st @ frames @ later"
proof -
  obtain frames where f: "stdout (handleMessage env m st) = stdout st @ frames"
    and n: "length frames = (if action m = Some ''set_folder'' then 2 else 1)"
    and t: "action m = Some ''set_folder'' \<longrightarrow>
        map (\<lambda>f. obj_get f ''type'') frames = [JStr ''folder_set'', JStr ''extensions_list'']"
  proof (cases "action m = Some ''set_folder''")
    case True
    from setFolderCase_stdout [of env m st] obtain f g
      where fg: "stdout (setFolderCase env m st) = stdout st @ [f, g]"
        and tf: "obj_get f ''type'' = JStr ''folder_set''"
        and tg: "obj_get g ''type'' = JStr ''extensions_list''" by blast
    from True have "handleMessage env m st = setFolderCase env m st"
      by (simp add: handleMessage_def)
    with fg have a: "stdout (handleMessage env m st) = stdout st @ [f, g]"
      by simp
    have b: "length [f, g] = (if action m = Some ''set_folder'' then 2 else 1)"
      using True by simp
    have c: "action m = Some ''set_folder'' \<longrightarrow>
        map (\<lambda>f. obj_get f ''type'') [f, g] = [JStr ''folder_set'', JStr ''extensions_list'']"
      using tf tg by simp
    from a b c show ?thesis
      by (rule that)
  next
    case False
    from handleMessage_one_frame [OF False, of env st] obtain f
      where a: "stdout (handleMessage env m st) = stdout st @ [f]" by blast
    have b: "length [f] = (if action m = Some ''set_folder'' then 2 else 1)"
      using False by simp
    have c: "action m = Some ''set_folder'' \<longrightarrow>
        map (\<lambda>f. obj_get f ''type'') [f] = [JStr ''folder_set'', JStr ''extensions_list'']"
      using False by simp
    from a b c show ?thesis
      by (rule that)
  qed
  from mainLoop_stdout [of env evs "handleMessage env m st"] obtain later
    where "stdout (mainLoop env evs (handleMessage env m st)) = stdout (handleMessage env m st) @ later"
    by blast
  with f have l: "stdout (mainLoop env (Resolved (Some m) # evs) st) = stdout st @ frames @ later"
    by simp
  from f n t l show ?thesis
    by (intro exI [of _ frames] exI [of _ later] conjI)
qed

text \<open>
  The amended C1 on the concrete machine: a \<open>set_folder\<close> request followed by a
  \<open>status\<close> request.
\<close>

theorem handleMessage_response_frames_witness:
  "\<exists>frames later.
     stdout (handleMessage linux_env \<lparr>action = Some ''set_folder'', path = Some ''/ext''\<rparr> (initial (0::nat)))
       = stdout (initial (0::nat)) @ frames \<and>
     length frames = 2 \<and>
     map (\<lambda>f. obj_get f ''type'') frames = [JStr ''folder_set'', JStr ''extensions_list''] \<and>
     stdout (mainLoop linux_env
        [Resolved (Some \<lparr>action = Some ''set_folder'', path = Some ''/ext''\<rparr>),
         Resolved (Some \<lparr>action = Some ''status'', path = None\<rparr>)] (initial 0))
       = stdout (initial (0::nat)) @ frames @ later"
proof -
  from handleMessage_response_frames
    [of linux_env "\<lparr>action = Some ''set_folder'', path = Some ''/ext''\<rparr>" "initial 0"
        "[Resolved (Some \<lparr>action = Some ''status'', path = None\<rparr>)]"]
  obtain frames later where
    a: "stdout (handleMessage linux_env \<lparr>action = Some ''set_folder'', path = Some ''/ext''\<rparr> (initial (0::nat)))
       = stdout (initial (0::nat)) @ frames"
    and b: "length frames = (if action \<lparr>action = Some ''set_folder'', path = Some ''/ext''\<rparr> = Some ''set_folder'' then 2 else 1)"
    and t: "action \<lparr>action = Some ''set_folder'', path = Some ''/ext''\<rparr> = Some ''set_folder'' \<longrightarrow>
       map (\<lambda>f. obj_get f ''type'') frames = [JStr ''folder_set'', JStr ''extensions_list'']"
    and c: "stdout (mainLoop linux_env
        [Resolved (Some \<lparr>action = Some ''set_folder'', path = Some ''/ext''\<rparr>),
         Resolved (Some \<lparr>action = Some ''status'', path = None\<rparr>)] (initial 0))
       = stdout (initial (0::nat)) @ frames @ later"
    by (elim exE conjE)
  from b have b': "length frames = 2"
    by simp
  from t have t': "map (\<lambda>f. obj_get f ''type'') frames = [JStr ''folder_set'', JStr ''extensions_list'']"
    by simp
  from a b' t' c show ?thesis
    by (intro exI [of _ frames] exI [of _ later] conjI)
qed

text \<open>
  C1 as the claim states it fails: on the concrete machine, a \<open>set_folder\<close> request to
  the freshly started helper is answered with two frames.
\<close>

theorem set_folder_two_frames:
  "stdout (initial (0::nat)) = [] \<and>
   stdout (handleMessage linux_env (request ''set_folder'' (Some ''/ext'')) (initial 0)) =
     [[(''type'', JStr ''folder_set''), (''success'', JBool True), (''path'', JStr ''/ext'')],
      [(''type'', JStr ''extensions_list''),
       (''extensions'',
          JArr [JObj [(''name'', JStr ''A''), (''version'', JStr ''1.0''),
                      (''description'', JStr []), (''path'', JStr ''/ext/a''),
                      (''folder'', JStr ''a''), (''manifestVersion'', JNum 2)],
                JObj [(''name'', JStr ''C''), (''version'', JStr ''0.0.0''),
                      (''description'', JStr []), (''path'', JStr ''/ext/c''),
                      (''folder'', JStr ''c''), (''manifestVersion'', JNum 2)]]),
       (''folder'', JStr ''/ext'')]]"
  by (simp add: handleMessage_def request_def setFolderCase_def Let_def initial_def
      path_val_def extensionsList_def linux_saveConfig linux_scan obj_get_def descriptor_obj_def)

lemma loadCase_config:
  "config (loadCase env m st) = config st \<and> configWrites (loadCase env m st) = configWrites st"
proof -
  obtain r st1 where l: "loadExtensionViaRDP env (path m) st = (r, st1)"
    by (cases "loadExtensionViaRDP env (path m) st")
  then have "st1 = snd (loadExtensionViaRDP env (path m) st)"
    by simp
  then have "config st1 = config st" "configWrites st1 = configWrites st"
    by simp_all
  with l show ?thesis
    by (simp add: loadCase_def split: sum.splits)
qed

lemma loadAllCase_config:
  "config (loadAllCase env st) = config st \<and> configWrites (loadAllCase env st) = configWrites st"
proof -
  obtain rs st1
    where l: "loadAllLoop env (scanExtensionsFolder env (config st) (world st)) [] st = (rs, st1)"
    by (cases "loadAllLoop env (scanExtensionsFolder env (config st) (world st)) [] st")
  then have "st1 = snd (loadAllLoop env (scanExtensionsFolder env (config st) (world st)) [] st)"
    by simp
  then have "config st1 = config st" "configWrites st1 = configWrites st"
    by simp_all
  with l show ?thesis
    by (simp add: loadAllCase_def Let_def)
qed

lemma unloadCase_config:
  "config (unloadCase env m st) = config st \<and> configWrites (unloadCase env m st) = configWrites st"
proof -
  obtain r st1 where l: "unloadExtension env (path m) st = (r, st1)"
    by (cases "unloadExtension env (path m) st")
  then have "st1 = snd (unloadExtension env (path m) st)"
    by simp
  then have "config st1 = config st" "configWrites st1 = configWrites st"
    by simp_all
  with l show ?thesis
    by (simp add: unloadCase_def)
qed

lemma unloadAllCase_config:
  "config (unloadAllCase env st) = config st \<and> configWrites (unloadAllCase env st) = configWrites st"
proof -
  obtain rs st1 where l: "unloadAllLoop env (map fst (loadedExtensions st)) [] st = (rs, st1)"
    by (cases "unloadAllLoop env (map fst (loadedExtensions st)) [] st")
  then have "st1 = snd (unloadAllLoop env (map fst (loadedExtensions st)) [] st)"
    by simp
  then have "config st1 = config st" "configWrites st1 = configWrites st"
    by simp_all
  with l show ?thesis
    by (simp add: unloadAllCase_def)
qed

lemma handleMessage_config:
  assumes "action m \<noteq> Some ''set_folder''"
  shows "config (handleMessage env m st) = config st \<and>
         configWrites (handleMessage env m st) = configWrites st"
  using assms loadCase_config [of env m st] loadAllCase_config [of env st]
    unloadCase_config [of env m st] unloadAllCase_config [of env st]
  by (simp add: handleMessage_def statusCase_def scanCase_def unknownCase_def)

lemma mainLoop_config:
  assumes "\<forall>ev \<in> set evs. \<not> setsFolder ev"
  shows "config (mainLoop env evs st) = config st \<and>
         configWrites (mainLoop env evs st) = configWrites st"
  using assms
proof (induction env evs st rule: mainLoop.induct)
  case (3 env m evs st)
  then have "action m \<noteq> Some ''set_folder''"
    by simp
  from handleMessage_config [OF this, of env st] 3 show ?case
    by simp
qed simp_all

text \<open>
  C8. A request whose action is not \<open>set_folder\<close> leaves the \<open>config\<close> object as it
  was and does not call \<open>saveConfig\<close>, the one function that writes the configuration
  file. So over any sequence of reads without a \<open>set_folder\<close> request, \<open>config\<close>
  keeps its value and the file is not written; \<open>loadConfig\<close> at startup does not write
  it either.
\<close>

theorem config_changed_only_by_set_folder:
  "(action m \<noteq> Some ''set_folder'' \<longrightarrow>
      config (handleMessage env m st) = config st \<and>
      configWrites (handleMessage env m st) = configWrites st) \<and>
   ((\<forall>ev \<in> set evs. \<not> setsFolder ev) \<longrightarrow>
      config (mainLoop env evs st) = config st \<and>
      configWrites (mainLoop env evs st) = configWrites st \<and>
      configWrites (main env w evs) = [])"
proof (intro conjI impI)
  assume a: "action m \<noteq> Some ''set_folder''"
  from handleMessage_config [OF a, of env st]
  show "config (handleMessage env m st) = config st"
    and "configWrites (handleMessage env m st) = configWrites st"
    by simp_all
next
  assume b: "\<forall>ev \<in> set evs. \<not> setsFolder ev"
  from mainLoop_config [OF b, of env st]
  show "config (mainLoop env evs st) = config st"
    and "configWrites (mainLoop env evs st) = configWrites st"
    by simp_all
  from mainLoop_config [OF b, of env "loadConfig env (initial w)"]
  show "configWrites (main env w evs) = []"
    by (simp add: main_def initial_def)
qed

text \<open>
  C8 on the concrete machine: a \<open>load\<close> request, and a run over a \<open>status\<close> request, a
  failed read and a \<open>load\<close> request.
\<close>

theorem config_changed_only_by_set_folder_witness:
  "config (handleMessage linux_env \<lparr>action = Some ''load'', path = Some ''/ext/a''\<rparr> (initial (0::nat)))
     = config (initial (0::nat)) \<and>
   configWrites (handleMessage linux_env \<lparr>action = Some ''load'', path = Some ''/ext/a''\<rparr> (initial (0::nat)))
     = configWrites (initial (0::nat)) \<and>
   config (mainLoop linux_env
     [Resolved (Some \<lparr>action = Some ''status'', path = None\<rparr>), Rejected ''Invalid JSON: x'',
      Resolved (Some \<lparr>action = Some ''load'', path = Some ''/ext/a''\<rparr>)] (initial (0::nat)))
     = config (initial (0::nat)) \<and>
   configWrites (mainLoop linux_env
     [Resolved (Some \<lparr>action = Some ''status'', path = None\<rparr>), Rejected ''Invalid JSON: x'',
      Resolved (Some \<lparr>action = Some ''load'', path = Some ''/ext/a''\<rparr>)] (initial (0::nat)))
     = configWrites (initial (0::nat)) \<and>
   configWrites (main linux_env 0
     [Resolved (Some \<lparr>action = Some ''status'', path = None\<rparr>), Rejected ''Invalid JSON: x'',
      Resolved (Some \<lparr>action = Some ''load'', path = Some ''/ext/a''\<rparr>)]) = []"
proof -
  have a: "action \<lparr>action = Some ''load'', path = Some ''/ext/a''\<rparr> \<noteq> Some ''set_folder''"
    by simp
  have b: "\<forall>ev \<in> set [Resolved (Some \<lparr>action = Some ''status'', path = None\<rparr>),
      Rejected ''Invalid JSON: x'',
      Resolved (Some \<lparr>action = Some ''load'', path = Some ''/ext/a''\<rparr>)]. \<not> setsFolder ev"
    by simp
  from a b config_changed_only_by_set_folder
    [of "\<lparr>action = Some ''load'', path = Some ''/ext/a''\<rparr>" linux_env "initial 0"
        "[Resolved (Some \<lparr>action = Some ''status'', path = None\<rparr>), Rejected ''Invalid JSON: x'',
          Resolved (Some \<lparr>action = Some ''load'', path = Some ''/ext/a''\<rparr>)]" 0]
  show ?thesis
    by (simp only: simp_thms)
qed

lemma loadConfig_no_file:
  assumes "\<not> existsSync env (snd (ensureConfigDir env w)) (CONFIG_FILE env)"
  shows "config (loadConfig env (initial w)) = config (initial w)"
  using assms
  by (cases "ensureConfigDir env w") (simp add: loadConfig_def initial_def split: option.splits)

lemma handleMessage_quiet:
  assumes "quiet (Resolved (Some m))" and "loadedExtensions st = []"
  shows "loadedExtensions (handleMessage env m st) = []"
  using assms
  by (simp add: handleMessage_def statusCase_def scanCase_def unknownCase_def
      unloadCase_def unloadAllCase_def unloadExtension_def)

lemma mainLoop_quiet:
  assumes "\<forall>ev \<in> set pre. quiet ev" and "loadedExtensions st = []"
  shows "mainLoop env (pre @ evs) st = mainLoop env evs (mainLoop env pre st) \<and>
         config (mainLoop env pre st) = config st \<and>
         loadedExtensions (mainLoop env pre st) = [] \<and>
         (\<exists>earlier. stdout (mainLoop env pre st) = stdout st @ earlier \<and>
            length earlier = length pre)"
  using assms
proof (induction pre arbitrary: st)
  case Nil
  then show ?case by simp
next
  case (Cons ev pre)
  from Cons.prems(1) have q: "quiet ev" and qs: "\<forall>ev \<in> set pre. quiet ev"
    by simp_all
  from q consider m where "ev = Resolved (Some m)" | e where "ev = Rejected e"
    by (cases ev rule: quiet.cases) simp_all
  then show ?case
  proof cases
    case 1
    define st1 where "st1 = handleMessage env m st"
    from q 1 have a: "action m \<noteq> Some ''set_folder''"
      by simp
    from handleMessage_quiet [of m st env] q 1 Cons.prems(2) have r: "loadedExtensions st1 = []"
      by (simp add: st1_def)
    from handleMessage_config [OF a, of env st] have c: "config st1 = config st"
      by (simp add: st1_def)
    from handleMessage_one_frame [OF a, of env st] obtain f where f: "stdout st1 = stdout st @ [f]"
      unfolding st1_def by (elim exE)
    from Cons.IH [OF qs r] obtain earlier
      where i1: "mainLoop env (pre @ evs) st1 = mainLoop env evs (mainLoop env pre st1)"
        and i2: "config (mainLoop env pre st1) = config st1"
        and i3: "loadedExtensions (mainLoop env pre st1) = []"
        and i4: "stdout (mainLoop env pre st1) = stdout st1 @ earlier"
        and i5: "length earlier = length pre"
      by (elim conjE exE)
    have s: "mainLoop env (ev # pre) st = mainLoop env pre st1"
      "mainLoop env ((ev # pre) @ evs) st = mainLoop env (pre @ evs) st1"
      by (simp_all add: 1 st1_def)
    from i4 f have o: "stdout (mainLoop env (ev # pre) st) = stdout st @ (f # earlier)"
      by (simp add: s)
    from i5 have l: "length (f # earlier) = length (ev # pre)"
      by simp
    from o l have "\<exists>earlier. stdout (mainLoop env (ev # pre) st) = stdout st @ earlier \<and>
            length earlier = length (ev # pre)"
      by (intro exI [of _ "f # earlier"] conjI)
    with i1 i2 i3 c show ?thesis
      by (simp only: s simp_thms)
  next
    case 2
    define st1 where "st1 = sendMessage [(''type'', JStr ''error''), (''error'', JStr e)] st"
    from Cons.prems(2) have r: "loadedExtensions st1 = []"
      by (simp add: st1_def)
    have c: "config st1 = config st"
      by (simp add: st1_def)
    have f: "stdout st1 = stdout st @ [[(''type'', JStr ''error''), (''error'', JStr e)]]"
      by (simp add: st1_def)
    from Cons.IH [OF qs r] obtain earlier
      where i1: "mainLoop env (pre @ evs) st1 = mainLoop env evs (mainLoop env pre st1)"
        and i2: "config (mainLoop env pre st1) = config st1"
        and i3: "loadedExtensions (mainLoop env pre st1) = []"
        and i4: "stdout (mainLoop env pre st1) = stdout st1 @ earlier"
        and i5: "length earlier = length pre"
      by (elim conjE exE)
    have s: "mainLoop env (ev # pre) st = mainLoop env pre st1"
      "mainLoop env ((ev # pre) @ evs) st = mainLoop env (pre @ evs) st1"
      by (simp_all add: 2 st1_def)
    from i4 f have o: "stdout (mainLoop env (ev # pre) st)
        = stdout st @ ([(''type'', JStr ''error''), (''error'', JStr e)] # earlier)"
      by (simp add: s)
    from i5 have l: "length ([(''type'', JStr ''error''), (''error'', JStr e)] # earlier)
        = length (ev # pre)"
      by simp
    from o l have "\<exists>earlier. stdout (mainLoop env (ev # pre) st) = stdout st @ earlier \<and>
            length earlier = length (ev # pre)"
      by (intro exI [of _ "[(''type'', JStr ''error''), (''error'', JStr e)] # earlier"] conjI)
    with i1 i2 i3 c show ?thesis
      by (simp only: s simp_thms)
  qed
qed

text \<open>
  C9. When no configuration file exists at the moment \<open>loadConfig\<close> looks for it, the
  first \<open>status\<close> request, coming after any number of reads that perform no
  \<open>set_folder\<close>, \<open>load\<close> or \<open>load_all\<close>, is answered, after one frame for each of
  those reads, with a \<open>status\<close> frame whose \<open>extensionFolder\<close> is the empty string
  and whose \<open>loadedCount\<close> is 0.
\<close>

theorem first_status_reports_defaults:
  assumes "\<not> existsSync env (snd (ensureConfigDir env w)) (CONFIG_FILE env)"
    and "\<forall>ev \<in> set pre. quiet ev"
    and "action m = Some ''status''"
  shows "\<exists>earlier resp later.
           stdout (main env w (pre @ Resolved (Some m) # evs)) = earlier @ resp # later \<and>
           length earlier = length pre \<and>
           obj_get resp ''type'' = JStr ''status'' \<and>
           obj_get resp ''extensionFolder'' = JStr [] \<and>
           obj_get resp ''loadedCount'' = JNum 0"
proof -
  define st0 where "st0 = loadConfig env (initial w)"
  define st where "st = mainLoop env pre st0"
  define resp where "resp =
     [(''type'', JStr ''status''), (''version'', JStr VERSION),
      (''firefoxPath'', getFirefoxPath env (config st) (world st)),
      (''extensionFolder'', obj_get (config st) ''extensionFolder''),
      (''loadedCount'', JNum (int (length (loadedExtensions st))))]"
  have c0: "config st0 = config (initial w)"
    unfolding st0_def using assms(1) by (rule loadConfig_no_file)
  have l0: "loadedExtensions st0 = []" and o0: "stdout st0 = []"
    by (simp_all add: st0_def initial_def)
  from mainLoop_quiet [OF assms(2) l0, of env "Resolved (Some m) # evs"] obtain earlier
    where run: "mainLoop env (pre @ Resolved (Some m) # evs) st0
                  = mainLoop env (Resolved (Some m) # evs) st"
      and c: "config st = config st0"
      and l: "loadedExtensions st = []"
      and o: "stdout st = stdout st0 @ earlier"
      and n: "length earlier = length pre"
    unfolding st_def by (elim conjE exE)
  from assms(3) have h: "handleMessage env m st = sendMessage resp st"
    by (simp add: handleMessage_def statusCase_def resp_def)
  from mainLoop_stdout [of env evs "handleMessage env m st"] obtain later
    where "stdout (mainLoop env evs (handleMessage env m st)) = stdout (handleMessage env m st) @ later"
    by (elim exE)
  with h o o0 run have s:
    "stdout (main env w (pre @ Resolved (Some m) # evs)) = earlier @ resp # later"
    by (simp add: main_def st0_def [symmetric])
  have t: "obj_get resp ''type'' = JStr ''status''"
    by (simp add: resp_def obj_get_Cons)
  have f: "obj_get resp ''extensionFolder'' = JStr []"
    by (simp add: resp_def c c0 obj_get_Cons initial_def)
  have z: "obj_get resp ''loadedCount'' = JNum 0"
    by (simp add: resp_def l obj_get_Cons)
  from s n t f z show ?thesis
    by (intro exI [of _ earlier] exI [of _ resp] exI [of _ later] conjI)
qed

text \<open>
  C9 on the concrete machine, which has no configuration file: a failed read and a
  \<open>scan\<close> request come before the first \<open>status\<close> request.
\<close>

theorem first_status_reports_defaults_witness:
  "\<exists>earlier resp later.
     stdout (main linux_env 0
        ([Rejected ''Invalid JSON: x'', Resolved (Some \<lparr>action = Some ''scan'', path = None\<rparr>)]
          @ Resolved (Some \<lparr>action = Some ''status'', path = None\<rparr>) # []))
       = earlier @ resp # later \<and>
     length earlier = length [Rejected ''Invalid JSON: x'',
                              Resolved (Some \<lparr>action = Some ''scan'', path = None\<rparr>)] \<and>
     obj_get resp ''type'' = JStr ''status'' \<and>
     obj_get resp ''extensionFolder'' = JStr [] \<and>
     obj_get resp ''loadedCount'' = JNum 0"
proof -
  have a: "\<not> existsSync linux_env (snd (ensureConfigDir linux_env 0)) (CONFIG_FILE linux_env)"
    by (simp add: linux_ensureConfigDir linux_CONFIG_FILE linux_env_existsSync)
  have q: "\<forall>ev \<in> set [Rejected ''Invalid JSON: x'',
      Resolved (Some \<lparr>action = Some ''scan'', path = None\<rparr>)]. quiet ev"
    by simp
  have b: "action \<lparr>action = Some ''status'', path = None\<rparr> = Some ''status''"
    by simp
  from first_status_reports_defaults [OF a q b, of "[]"] show ?thesis .
qed

subsection \<open>The claims about the registry\<close>

lemma map_of_delete_same: "map_of (AList.delete k al) k = None"
  by (simp add: delete_conv')

text \<open>
  C5. When the registry holds a record for \<open>p\<close>, \<open>unloadExtension\<close> returns
  \<open>{ success: true }\<close> and removes the record; it calls \<open>kill\<close> on the recorded
  process and whatever \<open>kill\<close> does, throw or not, changes neither the result nor
  the registry, only the outside world. A second call then returns \<open>success: false\<close>
  with the reason \<open>Extension not found in loaded list\<close>, as does any call for a path
  with no record, which also leaves the state as it was. The function returns a value
  in every case. The \<open>unload\<close> request answers with that result in an
  \<open>unload_result\<close> frame.
\<close>

theorem unloadExtension_result:
  "(map_of (loadedExtensions st) p = Some l \<longrightarrow>
      fst (unloadExtension env p st) = [(''success'', JBool True)] \<and>
      loadedExtensions (snd (unloadExtension env p st)) = AList.delete p (loadedExtensions st) \<and>
      map_of (loadedExtensions (snd (unloadExtension env p st))) p = None \<and>
      world (snd (unloadExtension env p st))
        = (case process l of Some proc \<Rightarrow> snd (kill env (world st) proc) | None \<Rightarrow> world st) \<and>
      fst (unloadExtension env p (snd (unloadExtension env p st)))
        = [(''success'', JBool False), (''error'', JStr ''Extension not found in loaded list'')] \<and>
      obj_get (last (stdout (handleMessage env \<lparr>action = Some ''unload'', path = p\<rparr> st))) ''success''
        = JBool True) \<and>
   (map_of (loadedExtensions st) p = None \<longrightarrow>
      unloadExtension env p st
        = ([(''success'', JBool False), (''error'', JStr ''Extension not found in loaded list'')], st) \<and>
      obj_get (last (stdout (handleMessage env \<lparr>action = Some ''unload'', path = p\<rparr> st))) ''success''
        = JBool False)"
proof (intro conjI impI)
  assume a: "map_of (loadedExtensions st) p = Some l"
  define st1 where "st1 = snd (unloadExtension env p st)"
  from a show r: "fst (unloadExtension env p st) = [(''success'', JBool True)]"
    by (simp add: unloadExtension_def Let_def)
  from a show d: "loadedExtensions (snd (unloadExtension env p st)) = AList.delete p (loadedExtensions st)"
    by (simp add: unloadExtension_def Let_def)
  then show n: "map_of (loadedExtensions (snd (unloadExtension env p st))) p = None"
    by (simp add: map_of_delete_same)
  from a show "world (snd (unloadExtension env p st))
        = (case process l of Some proc \<Rightarrow> snd (kill env (world st) proc) | None \<Rightarrow> world st)"
    by (simp add: unloadExtension_def Let_def)
  from n show "fst (unloadExtension env p (snd (unloadExtension env p st)))
        = [(''success'', JBool False), (''error'', JStr ''Extension not found in loaded list'')]"
    by (simp add: unloadExtension_def [of env p "snd (unloadExtension env p st)"])
  from r show "obj_get (last (stdout (handleMessage env \<lparr>action = Some ''unload'', path = p\<rparr> st))) ''success''
        = JBool True"
    by (cases "unloadExtension env p st")
       (simp add: handleMessage_def unloadCase_def spread_def obj_get_def update_conv')
next
  assume b: "map_of (loadedExtensions st) p = None"
  then show r: "unloadExtension env p st
        = ([(''success'', JBool False), (''error'', JStr ''Extension not found in loaded list'')], st)"
    by (simp add: unloadExtension_def)
  then show "obj_get (last (stdout (handleMessage env \<lparr>action = Some ''unload'', path = p\<rparr> st))) ''success''
        = JBool False"
    by (simp add: handleMessage_def unloadCase_def spread_def obj_get_def update_conv')
qed

lemma one_loaded_by_load:
  "loadExtensionViaRDP linux_env (Some ''/ext/a'') (initial 0)
     = (Inr [(''success'', JBool True), (''method'', JStr ''web-ext'')], one_loaded)"
  by (simp add: linux_load one_loaded_def initial_def)

text \<open>
  C5 on the concrete machine, where \<open>kill\<close> throws: unloading \<open>/ext/a\<close> twice after
  it was loaded, and unloading \<open>/ext/b\<close>, which was not.
\<close>

theorem unloadExtension_result_witness:
  "fst (kill linux_env (world one_loaded) 0) = Some ''kill ESRCH'' \<and>
   fst (unloadExtension linux_env (Some ''/ext/a'') one_loaded) = [(''success'', JBool True)] \<and>
   loadedExtensions (snd (unloadExtension linux_env (Some ''/ext/a'') one_loaded)) = [] \<and>
   fst (unloadExtension linux_env (Some ''/ext/a'')
          (snd (unloadExtension linux_env (Some ''/ext/a'') one_loaded)))
     = [(''success'', JBool False), (''error'', JStr ''Extension not found in loaded list'')] \<and>
   unloadExtension linux_env (Some ''/ext/b'') one_loaded
     = ([(''success'', JBool False), (''error'', JStr ''Extension not found in loaded list'')],
        one_loaded)"
proof -
  have a: "map_of (loadedExtensions one_loaded) (Some ''/ext/a'')
             = Some \<lparr>process = Some 0, loadMethod = ''web-ext''\<rparr>"
    by (simp add: one_loaded_def)
  have b: "map_of (loadedExtensions one_loaded) (Some ''/ext/b'') = None"
    by (simp add: one_loaded_def)
  have d: "AList.delete (Some ''/ext/a'') (loadedExtensions one_loaded) = []"
    by (simp add: one_loaded_def)
  have k: "fst (kill linux_env (world one_loaded) 0) = Some ''kill ESRCH''"
    by simp
  from a unloadExtension_result
    [of one_loaded "Some ''/ext/a''" "\<lparr>process = Some 0, loadMethod = ''web-ext''\<rparr>" linux_env]
  have 1: "fst (unloadExtension linux_env (Some ''/ext/a'') one_loaded) = [(''success'', JBool True)]"
    and 2: "loadedExtensions (snd (unloadExtension linux_env (Some ''/ext/a'') one_loaded))
              = AList.delete (Some ''/ext/a'') (loadedExtensions one_loaded)"
    and 3: "fst (unloadExtension linux_env (Some ''/ext/a'')
          (snd (unloadExtension linux_env (Some ''/ext/a'') one_loaded)))
     = [(''success'', JBool False), (''error'', JStr ''Extension not found in loaded list'')]"
    by (simp_all only: simp_thms)
  from b unloadExtension_result
    [of one_loaded "Some ''/ext/b''" "\<lparr>process = None, loadMethod = []\<rparr>" linux_env]
  have 4: "unloadExtension linux_env (Some ''/ext/b'') one_loaded
     = ([(''success'', JBool False), (''error'', JStr ''Extension not found in loaded list'')],
        one_loaded)"
    by simp
  from k 1 2 3 4 show ?thesis
    by (simp only: d simp_thms)
qed

lemma update_keeps_all:
  assumes "\<forall>kl \<in> set al. P (snd kl)" and "P v"
  shows "\<forall>kl \<in> set (AList.update k v al). P (snd kl)"
  using assms by (induction al) auto

lemma delete_keeps_all:
  assumes "\<forall>kl \<in> set al. P (snd kl)"
  shows "\<forall>kl \<in> set (AList.delete k al). P (snd kl)"
  using assms by (induction al) auto

text \<open>What \<open>loadExtensionViaRDP\<close> resolves to, and what it then did to the registry.\<close>

lemma loadExtensionViaRDP_resolved:
  assumes "fst (loadExtensionViaRDP env p st) = Inr r"
  shows "(r = [(''success'', JBool True), (''method'', JStr ''web-ext'')] \<and>
          (\<exists>proc. loadedExtensions (snd (loadExtensionViaRDP env p st))
             = AList.update p \<lparr>process = Some proc, loadMethod = ''web-ext''\<rparr> (loadedExtensions st))) \<or>
         ((\<exists>tempProfile. r = [(''success'', JBool True), (''method'', JStr ''profile''),
                 (''profilePath'', JStr tempProfile),
                 (''note'', JStr ''Extension prepared in temporary profile'')]) \<and>
          loadedExtensions (snd (loadExtensionViaRDP env p st)) = loadedExtensions st)"
proof -
  obtain webExtPath w1 where f: "findWebExt env (world st) = (webExtPath, w1)"
    by (cases "findWebExt env (world st)")
  show ?thesis
  proof (cases "webExtPath \<noteq> None \<and> webExtPath \<noteq> Some []")
    case True
    with f assms show ?thesis
      by (auto simp: loadExtensionViaRDP_def split: prod.splits sum.splits)
  next
    case False
    obtain q w2 where pp: "prepareProfile env w1 p = (q, w2)"
      by (cases "prepareProfile env w1 p")
    from False f assms pp have q: "q = Inr r"
      and l: "loadedExtensions (snd (loadExtensionViaRDP env p st)) = loadedExtensions st"
      by (auto simp: loadExtensionViaRDP_def Let_def split: if_splits)
    from pp q have "\<exists>tempProfile. r = [(''success'', JBool True), (''method'', JStr ''profile''),
                 (''profilePath'', JStr tempProfile),
                 (''note'', JStr ''Extension prepared in temporary profile'')]"
      by (auto simp: prepareProfile_def Let_def split: prod.splits option.splits)
    with l show ?thesis
      by simp
  qed
qed

lemma loadExtensionViaRDP_rejected:
  assumes "fst (loadExtensionViaRDP env p st) = Inl e"
  shows "loadedExtensions (snd (loadExtensionViaRDP env p st)) = loadedExtensions st"
  using assms
  by (auto simp: loadExtensionViaRDP_def Let_def split: prod.splits sum.splits if_splits)

lemma loadExtensionViaRDP_allWebExt:
  assumes "allWebExt st"
  shows "allWebExt (snd (loadExtensionViaRDP env p st))"
proof (cases "fst (loadExtensionViaRDP env p st)")
  case (Inl e)
  from loadExtensionViaRDP_rejected [OF Inl] assms show ?thesis
    by (simp add: allWebExt_def)
next
  case (Inr r)
  from loadExtensionViaRDP_resolved [OF Inr]
  consider proc where "loadedExtensions (snd (loadExtensionViaRDP env p st))
             = AList.update p \<lparr>process = Some proc, loadMethod = ''web-ext''\<rparr> (loadedExtensions st)"
    | "loadedExtensions (snd (loadExtensionViaRDP env p st)) = loadedExtensions st"
    by (elim disjE conjE exE)
  then show ?thesis
  proof cases
    case 1
    have "\<forall>kl \<in> set (AList.update p \<lparr>process = Some proc, loadMethod = ''web-ext''\<rparr>
             (loadedExtensions st)). loadMethod (snd kl) = ''web-ext''"
      using assms by (intro update_keeps_all) (simp_all add: allWebExt_def)
    with 1 show ?thesis
      by (simp add: allWebExt_def)
  next
    case 2
    with assms show ?thesis
      by (simp add: allWebExt_def)
  qed
qed

lemma unloadExtension_allWebExt:
  assumes "allWebExt st"
  shows "allWebExt (snd (unloadExtension env p st))"
proof (cases "map_of (loadedExtensions st) p")
  case None
  with assms show ?thesis
    by (simp add: unloadExtension_def)
next
  case (Some l)
  have "\<forall>kl \<in> set (AList.delete p (loadedExtensions st)). loadMethod (snd kl) = ''web-ext''"
    using assms by (intro delete_keeps_all) (simp add: allWebExt_def)
  with Some show ?thesis
    by (simp add: unloadExtension_def Let_def allWebExt_def)
qed

lemma loadAllLoop_allWebExt:
  assumes "allWebExt st"
  shows "allWebExt (snd (loadAllLoop env exts results st))"
  using assms
proof (induction exts arbitrary: results st)
  case Nil
  then show ?case by simp
next
  case (Cons ext exts)
  obtain r st1 where l: "loadExtensionViaRDP env (Some (ext_path ext)) st = (r, st1)"
    by (cases "loadExtensionViaRDP env (Some (ext_path ext)) st")
  with loadExtensionViaRDP_allWebExt [OF Cons.prems, of env "Some (ext_path ext)"]
  have "allWebExt st1"
    by simp
  with l Cons.IH show ?case
    by (cases r) simp_all
qed

lemma unloadAllLoop_allWebExt:
  assumes "allWebExt st"
  shows "allWebExt (snd (unloadAllLoop env ps results st))"
  using assms
proof (induction ps arbitrary: results st)
  case Nil
  then show ?case by simp
next
  case (Cons p ps)
  obtain r st1 where l: "unloadExtension env p st = (r, st1)"
    by (cases "unloadExtension env p st")
  with unloadExtension_allWebExt [OF Cons.prems, of env p]
  have "allWebExt st1"
    by simp
  with l Cons.IH show ?case
    by simp
qed

lemma allWebExt_cong:
  assumes "allWebExt st" and "loadedExtensions st' = loadedExtensions st"
  shows "allWebExt st'"
  using assms by (simp add: allWebExt_def)

lemma handleMessage_allWebExt:
  assumes "allWebExt st"
  shows "allWebExt (handleMessage env m st)"
proof -
  have 1: "allWebExt (statusCase env st)"
    using assms by (rule allWebExt_cong [of st]) (simp_all add: statusCase_def)
  have 2: "allWebExt (scanCase env st)"
    using assms by (rule allWebExt_cong [of st]) (simp_all add: scanCase_def)
  have 3: "allWebExt (setFolderCase env m st)"
    using assms by (rule allWebExt_cong [of st]) (simp_all add: setFolderCase_def Let_def)
  have 4: "allWebExt (loadCase env m st)"
  proof -
    obtain r st1 where l: "loadExtensionViaRDP env (path m) st = (r, st1)"
      by (cases "loadExtensionViaRDP env (path m) st")
    with loadExtensionViaRDP_allWebExt [OF assms, of env "path m"] have "allWebExt st1"
      by simp
    then have "\<And>msg. allWebExt (sendMessage msg st1)"
      by (rule allWebExt_cong [of st1]) simp_all
    with l show ?thesis
      by (simp add: loadCase_def split: sum.splits)
  qed
  have 5: "allWebExt (loadAllCase env st)"
  proof -
    obtain rs st1
      where l: "loadAllLoop env (scanExtensionsFolder env (config st) (world st)) [] st = (rs, st1)"
      by (cases "loadAllLoop env (scanExtensionsFolder env (config st) (world st)) [] st")
    with loadAllLoop_allWebExt [OF assms, of env "scanExtensionsFolder env (config st) (world st)" "[]"]
    have "allWebExt st1"
      by simp
    then have "\<And>msg. allWebExt (sendMessage msg st1)"
      by (rule allWebExt_cong [of st1]) simp_all
    with l show ?thesis
      by (simp add: loadAllCase_def Let_def)
  qed
  have 6: "allWebExt (unloadCase env m st)"
  proof -
    obtain r st1 where l: "unloadExtension env (path m) st = (r, st1)"
      by (cases "unloadExtension env (path m) st")
    with unloadExtension_allWebExt [OF assms, of env "path m"] have "allWebExt st1"
      by simp
    then have "\<And>msg. allWebExt (sendMessage msg st1)"
      by (rule allWebExt_cong [of st1]) simp_all
    with l show ?thesis
      by (simp add: unloadCase_def)
  qed
  have 7: "allWebExt (unloadAllCase env st)"
  proof -
    obtain rs st1 where l: "unloadAllLoop env (map fst (loadedExtensions st)) [] st = (rs, st1)"
      by (cases "unloadAllLoop env (map fst (loadedExtensions st)) [] st")
    with unloadAllLoop_allWebExt [OF assms, of env "map fst (loadedExtensions st)" "[]"]
    have "allWebExt st1"
      by simp
    then have "\<And>msg. allWebExt (sendMessage msg st1)"
      by (rule allWebExt_cong [of st1]) simp_all
    with l show ?thesis
      by (simp add: unloadAllCase_def)
  qed
  have 8: "allWebExt (unknownCase m st)"
    using assms by (rule allWebExt_cong [of st]) (simp_all add: unknownCase_def)
  from 1 2 3 4 5 6 7 8 show ?thesis
    by (simp add: handleMessage_def)
qed

lemma mainLoop_allWebExt:
  assumes "allWebExt st"
  shows "allWebExt (mainLoop env evs st)"
  using assms
proof (induction env evs st rule: mainLoop.induct)
  case (3 env m evs st)
  from handleMessage_allWebExt [OF "3.prems", of env m] 3 show ?case
    by simp
next
  case (4 env e evs st)
  from "4.prems" have "allWebExt (sendMessage [(''type'', JStr ''error''), (''error'', JStr e)] st)"
    by (rule allWebExt_cong [of st]) simp_all
  with 4 show ?case
    by simp
qed simp_all

lemma main_allWebExt: "allWebExt (main env w evs)"
proof -
  have "allWebExt (loadConfig env (initial w))"
    by (simp add: allWebExt_def initial_def)
  then show ?thesis
    unfolding main_def by (rule mainLoop_allWebExt)
qed

lemma status_loadedCount:
  "obj_get (last (stdout (handleMessage env \<lparr>action = Some ''status'', path = q\<rparr> st))) ''loadedCount''
     = JNum (int (length (loadedExtensions st)))"
  by (simp add: handleMessage_def statusCase_def obj_get_def)

lemma loadCase_profile:
  assumes "obj_get (last (stdout (loadCase env m st))) ''method'' = JStr ''profile''"
  shows "loadedExtensions (loadCase env m st) = loadedExtensions st"
proof -
  obtain r0 st1 where l: "loadExtensionViaRDP env (path m) st = (r0, st1)"
    by (cases "loadExtensionViaRDP env (path m) st")
  show ?thesis
  proof (cases r0)
    case (Inl e)
    with l assms show ?thesis
      by (simp add: loadCase_def loadFailure_def obj_get_def)
  next
    case (Inr result)
    show ?thesis
    proof (cases "manifestName env (world st1) (path m)")
      case (Inl e)
      with l Inr assms show ?thesis
        by (simp add: loadCase_def loadFailure_def obj_get_def)
    next
      case (Inr extensionName)
      from l \<open>r0 = Inr result\<close> have f: "fst (loadExtensionViaRDP env (path m) st) = Inr result"
        and s: "st1 = snd (loadExtensionViaRDP env (path m) st)"
        by simp_all
      from l \<open>r0 = Inr result\<close> Inr
      have frame: "last (stdout (loadCase env m st)) =
          spread [(''type'', JStr ''load_result''), (''success'', JBool True),
                  (''extensionName'', extensionName), (''path'', path_val (path m))] result"
        and reg: "loadedExtensions (loadCase env m st) = loadedExtensions st1"
        by (simp_all add: loadCase_def)
      from loadExtensionViaRDP_resolved [OF f]
      consider "result = [(''success'', JBool True), (''method'', JStr ''web-ext'')]"
        | "loadedExtensions (snd (loadExtensionViaRDP env (path m) st)) = loadedExtensions st"
        by (elim disjE conjE)
      then show ?thesis
      proof cases
        case 1
        with frame assms show ?thesis
          by (simp add: spread_def obj_get_def)
      next
        case 2
        with reg s show ?thesis
          by simp
      qed
    qed
  qed
qed

text \<open>
  C10. A load that \<open>loadExtensionViaRDP\<close> resolves with the method \<open>profile\<close> leaves
  the registry as it was, and so does a \<open>load\<close> request answered with that method:
  a \<open>status\<close> request after it reports the \<open>loadedCount\<close> one before it would have
  reported. Whenever \<open>loadExtensionViaRDP\<close> changes the registry, it resolves with
  the method \<open>web-ext\<close>. In every state the helper reaches from its start, every
  record of the registry has the method \<open>web-ext\<close>.
\<close>

theorem registry_holds_web_ext_only:
  "(fst (loadExtensionViaRDP env p st) = Inr r \<and> obj_get r ''method'' = JStr ''profile'' \<longrightarrow>
      loadedExtensions (snd (loadExtensionViaRDP env p st)) = loadedExtensions st) \<and>
   (obj_get (last (stdout (handleMessage env \<lparr>action = Some ''load'', path = p\<rparr> st))) ''method''
        = JStr ''profile'' \<longrightarrow>
      loadedExtensions (handleMessage env \<lparr>action = Some ''load'', path = p\<rparr> st) = loadedExtensions st \<and>
      obj_get (last (stdout (handleMessage env \<lparr>action = Some ''status'', path = q\<rparr>
                 (handleMessage env \<lparr>action = Some ''load'', path = p\<rparr> st)))) ''loadedCount''
        = obj_get (last (stdout (handleMessage env \<lparr>action = Some ''status'', path = q\<rparr> st))) ''loadedCount'') \<and>
   (loadedExtensions (snd (loadExtensionViaRDP env p st)) \<noteq> loadedExtensions st \<longrightarrow>
      fst (loadExtensionViaRDP env p st) = Inr [(''success'', JBool True), (''method'', JStr ''web-ext'')]) \<and>
   allWebExt (main env w evs)"
proof (intro conjI impI)
  assume a: "fst (loadExtensionViaRDP env p st) = Inr r \<and> obj_get r ''method'' = JStr ''profile''"
  then have f: "fst (loadExtensionViaRDP env p st) = Inr r"
    and m: "obj_get r ''method'' = JStr ''profile''"
    by simp_all
  from loadExtensionViaRDP_resolved [OF f]
  consider "r = [(''success'', JBool True), (''method'', JStr ''web-ext'')]"
    | "loadedExtensions (snd (loadExtensionViaRDP env p st)) = loadedExtensions st"
    by (elim disjE conjE)
  then show "loadedExtensions (snd (loadExtensionViaRDP env p st)) = loadedExtensions st"
  proof cases
    case 1
    with m show ?thesis
      by (simp add: obj_get_def)
  next
    case 2
    then show ?thesis .
  qed
next
  assume "obj_get (last (stdout (handleMessage env \<lparr>action = Some ''load'', path = p\<rparr> st))) ''method''
        = JStr ''profile''"
  then have "obj_get (last (stdout (loadCase env \<lparr>action = Some ''load'', path = p\<rparr> st))) ''method''
        = JStr ''profile''"
    by (simp add: handleMessage_def)
  from loadCase_profile [OF this]
  show u: "loadedExtensions (handleMessage env \<lparr>action = Some ''load'', path = p\<rparr> st) = loadedExtensions st"
    by (simp add: handleMessage_def)
  show "obj_get (last (stdout (handleMessage env \<lparr>action = Some ''status'', path = q\<rparr>
                 (handleMessage env \<lparr>action = Some ''load'', path = p\<rparr> st)))) ''loadedCount''
        = obj_get (last (stdout (handleMessage env \<lparr>action = Some ''status'', path = q\<rparr> st))) ''loadedCount''"
    by (simp only: status_loadedCount u)
next
  assume c: "loadedExtensions (snd (loadExtensionViaRDP env p st)) \<noteq> loadedExtensions st"
  show "fst (loadExtensionViaRDP env p st) = Inr [(''success'', JBool True), (''method'', JStr ''web-ext'')]"
  proof (cases "fst (loadExtensionViaRDP env p st)")
    case (Inl e)
    from loadExtensionViaRDP_rejected [OF Inl] c show ?thesis
      by simp
  next
    case (Inr r)
    from loadExtensionViaRDP_resolved [OF Inr] c
    have "r = [(''success'', JBool True), (''method'', JStr ''web-ext'')]"
      by (elim disjE conjE) simp_all
    with Inr show ?thesis
      by simp
  qed
next
  show "allWebExt (main env w evs)"
    by (rule main_allWebExt)
qed

lemma linux_no_tool_loadCase:
  "handleMessage linux_env_no_tool \<lparr>action = Some ''load'', path = Some ''/ext/a''\<rparr> (initial 0) =
     sendMessage
       [(''type'', JStr ''load_result''), (''success'', JBool True),
        (''extensionName'', JStr ''A''), (''path'', JStr ''/ext/a''),
        (''method'', JStr ''profile''),
        (''profilePath'', JStr (''/tmp/rapunzel-profile-'' @ decimal 1700000000000)),
        (''note'', JStr ''Extension prepared in temporary profile'')] (initial 0)"
proof -
  have c: "obj_get (config (initial (0::nat))) ''firefoxPath'' = JStr []"
    by (simp add: initial_def obj_get_def)
  have w: "world (initial (0::nat)) = 0"
    by (simp add: initial_def)
  show ?thesis
    by (simp add: handleMessage_def loadCase_def linux_no_tool_load [OF c] w
        linux_manifestName_a spread_def path_val_def)
qed

text \<open>
  C10 on the concrete machine: without the loader tool a load of \<open>/ext/a\<close> prepares a
  profile and the registry stays empty; with the tool the same load makes a record.
\<close>

theorem registry_holds_web_ext_only_witness:
  "loadedExtensions (snd (loadExtensionViaRDP linux_env_no_tool (Some ''/ext/a'') (initial 0)))
     = loadedExtensions (initial (0::nat)) \<and>
   loadedExtensions (handleMessage linux_env_no_tool \<lparr>action = Some ''load'', path = Some ''/ext/a''\<rparr>
       (initial 0)) = loadedExtensions (initial (0::nat)) \<and>
   obj_get (last (stdout (handleMessage linux_env_no_tool \<lparr>action = Some ''status'', path = None\<rparr>
       (handleMessage linux_env_no_tool \<lparr>action = Some ''load'', path = Some ''/ext/a''\<rparr> (initial 0)))))
       ''loadedCount''
     = obj_get (last (stdout (handleMessage linux_env_no_tool \<lparr>action = Some ''status'', path = None\<rparr>
         (initial 0)))) ''loadedCount'' \<and>
   loadedExtensions (snd (loadExtensionViaRDP linux_env (Some ''/ext/a'') (initial 0)))
     \<noteq> loadedExtensions (initial (0::nat)) \<and>
   fst (loadExtensionViaRDP linux_env (Some ''/ext/a'') (initial 0))
     = Inr [(''success'', JBool True), (''method'', JStr ''web-ext'')] \<and>
   allWebExt (main linux_env 0 [Resolved (Some \<lparr>action = Some ''load'', path = Some ''/ext/a''\<rparr>)])"
proof -
  define r where "r = [(''success'', JBool True), (''method'', JStr ''profile''),
           (''profilePath'', JStr (''/tmp/rapunzel-profile-'' @ decimal 1700000000000)),
           (''note'', JStr ''Extension prepared in temporary profile'')]"
  have c: "obj_get (config (initial (0::nat))) ''firefoxPath'' = JStr []"
    by (simp add: initial_def obj_get_def)
  have w: "world (initial (0::nat)) = 0"
    by (simp add: initial_def)
  have h1: "fst (loadExtensionViaRDP linux_env_no_tool (Some ''/ext/a'') (initial 0)) = Inr r \<and>
            obj_get r ''method'' = JStr ''profile''"
    by (simp add: linux_no_tool_load [OF c] w r_def obj_get_def)
  have h2: "obj_get (last (stdout (handleMessage linux_env_no_tool
              \<lparr>action = Some ''load'', path = Some ''/ext/a''\<rparr> (initial 0)))) ''method''
            = JStr ''profile''"
    by (simp add: linux_no_tool_loadCase obj_get_def)
  have h3: "loadedExtensions (snd (loadExtensionViaRDP linux_env (Some ''/ext/a'') (initial 0)))
     \<noteq> loadedExtensions (initial (0::nat))"
    by (simp add: linux_load initial_def)
  from registry_holds_web_ext_only
    [of linux_env_no_tool "Some ''/ext/a''" "initial 0" r None 0 "[]"] h1 h2
  have 1: "loadedExtensions (snd (loadExtensionViaRDP linux_env_no_tool (Some ''/ext/a'') (initial 0)))
     = loadedExtensions (initial (0::nat))"
    and 2: "loadedExtensions (handleMessage linux_env_no_tool \<lparr>action = Some ''load'', path = Some ''/ext/a''\<rparr>
       (initial 0)) = loadedExtensions (initial (0::nat))"
    and 3: "obj_get (last (stdout (handleMessage linux_env_no_tool \<lparr>action = Some ''status'', path = None\<rparr>
       (handleMessage linux_env_no_tool \<lparr>action = Some ''load'', path = Some ''/ext/a''\<rparr> (initial 0)))))
       ''loadedCount''
     = obj_get (last (stdout (handleMessage linux_env_no_tool \<lparr>action = Some ''status'', path = None\<rparr>
         (initial 0)))) ''loadedCount''"
    by (simp_all only: simp_thms)
  from registry_holds_web_ext_only
    [of linux_env "Some ''/ext/a''" "initial 0" r None 0
        "[Resolved (Some \<lparr>action = Some ''load'', path = Some ''/ext/a''\<rparr>)]"] h3
  have 4: "fst (loadExtensionViaRDP linux_env (Some ''/ext/a'') (initial 0))
     = Inr [(''success'', JBool True), (''method'', JStr ''web-ext'')]"
    and 5: "allWebExt (main linux_env 0 [Resolved (Some \<lparr>action = Some ''load'', path = Some ''/ext/a''\<rparr>)])"
    by (simp_all only: simp_thms)
  from 1 2 3 h3 4 5 show ?thesis
    by (intro conjI)
qed

text \<open>
  C2. The claim: a \<open>load\<close> request answered with \<open>success: false\<close> leaves the registry
  as it was. On the concrete machine, where the loader tool is installed and
  \<open>/ext/b\<close> has no manifest, a \<open>load\<close> of \<open>/ext/b\<close> spawns the tool and records it,
  then fails to read the manifest for the extension's name: the helper answers
  \<open>success: false\<close> and the registry, empty before, holds a record for \<open>/ext/b\<close>.
\<close>

theorem failed_load_leaves_record:
  "loadedExtensions (initial (0::nat)) = [] \<and>
   stdout (handleMessage linux_env \<lparr>action = Some ''load'', path = Some ''/ext/b''\<rparr> (initial 0)) =
     [[(''type'', JStr ''load_result''), (''success'', JBool False),
       (''error'', JStr ''ENOENT: no such file or directory''), (''path'', JStr ''/ext/b'')]] \<and>
   loadedExtensions (handleMessage linux_env \<lparr>action = Some ''load'', path = Some ''/ext/b''\<rparr> (initial 0)) =
     [(Some ''/ext/b'', \<lparr>process = Some 0, loadMethod = ''web-ext''\<rparr>)]"
  by (simp add: handleMessage_def loadCase_def linux_load linux_manifestName_b loadFailure_def
      path_val_def initial_def)

subsection \<open>The claim about the scanner\<close>

lemma get_prop_Inr:
  "(\<exists>v. get_prop manifest k = Inr v) \<longleftrightarrow> manifest \<noteq> JNull \<and> manifest \<noteq> JUndefined"
  by (cases manifest) simp_all

lemma readDescriptor_usable:
  "(\<exists>d. readDescriptor env w extPath item manifestPath = Inr d) \<longleftrightarrow>
     (case and_then (readFileSync env w manifestPath) (JSON_parse env) of
        Inr manifest \<Rightarrow> manifest \<noteq> JNull \<and> manifest \<noteq> JUndefined
      | Inl e \<Rightarrow> False)"
proof (cases "readFileSync env w manifestPath")
  case (Inl e)
  then show ?thesis
    by (simp add: readDescriptor_def and_then_def)
next
  case data: (Inr data)
  show ?thesis
  proof (cases "JSON_parse env data")
    case (Inl e)
    with data show ?thesis
      by (simp add: readDescriptor_def and_then_def)
  next
    case (Inr manifest)
    with data show ?thesis
      by (cases manifest) (simp_all add: readDescriptor_def and_then_def)
  qed
qed

lemma readDescriptor_fields:
  assumes "readDescriptor env w extPath item manifestPath = Inr d"
  shows "ext_folder d = ent_name item \<and> ext_path d = extPath"
  using assms
  by (auto simp: readDescriptor_def and_then_def split: sum.splits)

lemma scanItems_usable:
  "map ext_folder (scanItems env w folder items)
     = map ent_name (filter (manifestUsable env w folder) items) \<and>
   map ext_path (scanItems env w folder items)
     = map (\<lambda>item. path_join env [folder, ent_name item]) (filter (manifestUsable env w folder) items)"
proof (induction items)
  case Nil
  show ?case by simp
next
  case (Cons item items)
  define extPath where "extPath = path_join env [folder, ent_name item]"
  define manifestPath where "manifestPath = path_join env [extPath, ''manifest.json'']"
  show ?case
  proof (cases "readDescriptor env w extPath item manifestPath")
    case (Inl e)
    with readDescriptor_usable [of env w extPath item manifestPath]
    have "\<not> (case and_then (readFileSync env w manifestPath) (JSON_parse env) of
        Inr manifest \<Rightarrow> manifest \<noteq> JNull \<and> manifest \<noteq> JUndefined
      | Inl e \<Rightarrow> False)"
      by simp
    then have "\<not> manifestUsable env w folder item"
      by (simp add: manifestUsable_def Let_def extPath_def manifestPath_def)
    with Inl Cons.IH show ?thesis
      by (simp add: Let_def extPath_def [symmetric] manifestPath_def [symmetric])
  next
    case (Inr d)
    with readDescriptor_usable [of env w extPath item manifestPath]
    have "case and_then (readFileSync env w manifestPath) (JSON_parse env) of
        Inr manifest \<Rightarrow> manifest \<noteq> JNull \<and> manifest \<noteq> JUndefined
      | Inl e \<Rightarrow> False"
      by simp
    then have u: "manifestUsable env w folder item \<longleftrightarrow>
        isDirectory item \<and> existsSync env w manifestPath"
      by (simp add: manifestUsable_def Let_def extPath_def manifestPath_def)
    from readDescriptor_fields [OF Inr] have "ext_folder d = ent_name item" "ext_path d = extPath"
      by simp_all
    with Inr Cons.IH u show ?thesis
      by (simp add: Let_def extPath_def [symmetric] manifestPath_def [symmetric])
  qed
qed

text \<open>
  C7, as amended. When the configured folder is the empty string or does not exist, the
  scan returns the empty array. When it is a non-empty path that exists and can be
  listed, the scan returns, in listing order, exactly one descriptor for each entry
  that is a directory holding a manifest file that can be read and parses to a JSON
  value other than \<open>null\<close>; every other entry is skipped and the scan goes on.
\<close>

theorem scanExtensionsFolder_descriptors:
  "(obj_get cfg ''extensionFolder'' = JStr [] \<or>
      \<not> existsSync_val env w (obj_get cfg ''extensionFolder'') \<longrightarrow>
      scanExtensionsFolder env cfg w = []) \<and>
   (obj_get cfg ''extensionFolder'' = JStr folder \<and> folder \<noteq> [] \<and> existsSync env w folder \<and>
      readdirSync env w folder = Inr items \<longrightarrow>
      length (scanExtensionsFolder env cfg w) = length (filter (manifestUsable env w folder) items) \<and>
      map ext_folder (scanExtensionsFolder env cfg w)
        = map ent_name (filter (manifestUsable env w folder) items) \<and>
      map ext_path (scanExtensionsFolder env cfg w)
        = map (\<lambda>item. path_join env [folder, ent_name item])
            (filter (manifestUsable env w folder) items))"
proof (intro conjI impI)
  assume "obj_get cfg ''extensionFolder'' = JStr [] \<or>
      \<not> existsSync_val env w (obj_get cfg ''extensionFolder'')"
  then show "scanExtensionsFolder env cfg w = []"
    by (auto simp: scanExtensionsFolder_def)
next
  assume a: "obj_get cfg ''extensionFolder'' = JStr folder \<and> folder \<noteq> [] \<and>
      existsSync env w folder \<and> readdirSync env w folder = Inr items"
  then have s: "scanExtensionsFolder env cfg w = scanItems env w folder items"
    by (simp add: scanExtensionsFolder_def)
  from scanItems_usable [of env w folder items]
  show f: "map ext_folder (scanExtensionsFolder env cfg w)
        = map ent_name (filter (manifestUsable env w folder) items)"
    and "map ext_path (scanExtensionsFolder env cfg w)
        = map (\<lambda>item. path_join env [folder, ent_name item])
            (filter (manifestUsable env w folder) items)"
    by (simp_all only: s)
  from arg_cong [OF f, of length]
  show "length (scanExtensionsFolder env cfg w) = length (filter (manifestUsable env w folder) items)"
    by simp
qed

lemma linux_manifestUsable:
  "filter (manifestUsable linux_env w ''/ext'')
     [Dirent ''a'' True, Dirent ''b'' True, Dirent ''c'' True, Dirent ''n'' True, Dirent ''README'' False]
   = [Dirent ''a'' True, Dirent ''c'' True]"
  by (simp add: manifestUsable_def linux_env_existsSync linux_env_readFileSync and_then_def)

lemma linux_manifestParses:
  "filter (manifestParses linux_env w ''/ext'')
     [Dirent ''a'' True, Dirent ''b'' True, Dirent ''c'' True, Dirent ''n'' True, Dirent ''README'' False]
   = [Dirent ''a'' True, Dirent ''c'' True, Dirent ''n'' True]"
  by (simp add: manifestParses_def linux_env_existsSync linux_env_readFileSync and_then_def)

text \<open>
  The amended C7 on the concrete machine: the folder \<open>/ext\<close>, and a folder that does
  not exist.
\<close>

theorem scanExtensionsFolder_descriptors_witness:
  "scanExtensionsFolder linux_env [(''extensionFolder'', JStr ''/missing'')] 0 = [] \<and>
   length (scanExtensionsFolder linux_env [(''extensionFolder'', JStr ''/ext'')] 0) = 2 \<and>
   map ext_folder (scanExtensionsFolder linux_env [(''extensionFolder'', JStr ''/ext'')] 0)
     = [''a'', ''c''] \<and>
   map ext_path (scanExtensionsFolder linux_env [(''extensionFolder'', JStr ''/ext'')] 0)
     = [''/ext/a'', ''/ext/c'']"
proof -
  have a: "obj_get [(''extensionFolder'', JStr ''/missing'')] ''extensionFolder'' = JStr [] \<or>
      \<not> existsSync_val linux_env 0 (obj_get [(''extensionFolder'', JStr ''/missing'')] ''extensionFolder'')"
    by (simp add: obj_get_Cons linux_env_existsSync)
  have b: "obj_get [(''extensionFolder'', JStr ''/ext'')] ''extensionFolder'' = JStr ''/ext'' \<and>
      ''/ext'' \<noteq> [] \<and> existsSync linux_env 0 ''/ext'' \<and>
      readdirSync linux_env 0 ''/ext''
        = Inr [Dirent ''a'' True, Dirent ''b'' True, Dirent ''c'' True, Dirent ''n'' True,
               Dirent ''README'' False]"
    by (simp add: obj_get_Cons linux_env_existsSync linux_env_readdirSync)
  from a scanExtensionsFolder_descriptors
    [of "[(''extensionFolder'', JStr ''/missing'')]" linux_env 0 "[]" "[]"]
  have 1: "scanExtensionsFolder linux_env [(''extensionFolder'', JStr ''/missing'')] 0 = []"
    by (simp only: simp_thms)
  from b scanExtensionsFolder_descriptors
    [of "[(''extensionFolder'', JStr ''/ext'')]" linux_env 0 "''/ext''"
        "[Dirent ''a'' True, Dirent ''b'' True, Dirent ''c'' True, Dirent ''n'' True,
          Dirent ''README'' False]", unfolded linux_manifestUsable]
  have 2: "length (scanExtensionsFolder linux_env [(''extensionFolder'', JStr ''/ext'')] 0) = 2"
    and 3: "map ext_folder (scanExtensionsFolder linux_env [(''extensionFolder'', JStr ''/ext'')] 0)
     = [''a'', ''c'']"
    and 4: "map ext_path (scanExtensionsFolder linux_env [(''extensionFolder'', JStr ''/ext'')] 0)
     = [''/ext/a'', ''/ext/c'']"
    by simp_all
  from 1 2 3 4 show ?thesis
    by (intro conjI)
qed

text \<open>
  C7 as the claim states it fails: on the concrete machine the folder \<open>/ext\<close> lists
  four subdirectories, three of them hold a manifest file that parses as JSON (that of
  \<open>n\<close> parses to \<open>null\<close>), and the scan returns two descriptors.
\<close>

theorem scan_skips_null_manifest:
  "readdirSync linux_env 0 ''/ext''
     = Inr [Dirent ''a'' True, Dirent ''b'' True, Dirent ''c'' True, Dirent ''n'' True,
            Dirent ''README'' False] \<and>
   and_then (readFileSync linux_env 0 ''/ext/n/manifest.json'') (JSON_parse linux_env) = Inr JNull \<and>
   filter (manifestParses linux_env 0 ''/ext'')
     [Dirent ''a'' True, Dirent ''b'' True, Dirent ''c'' True, Dirent ''n'' True, Dirent ''README'' False]
     = [Dirent ''a'' True, Dirent ''c'' True, Dirent ''n'' True] \<and>
   map ext_folder (scanExtensionsFolder linux_env [(''extensionFolder'', JStr ''/ext'')] 0)
     = [''a'', ''c'']"
  unfolding linux_manifestParses
  by (simp add: linux_env_readdirSync linux_env_readFileSync and_then_def linux_scan obj_get_Cons)

subsection \<open>The claim about the batch actions\<close>

lemma sequentially_length: "length (fst (sequentially f xs s)) = length xs"
  by (induction xs arbitrary: s) (simp_all add: split_beta)

lemma sequentially_append:
  "sequentially f (xs @ ys) s =
     (fst (sequentially f xs s) @ fst (sequentially f ys (snd (sequentially f xs s))),
      snd (sequentially f ys (snd (sequentially f xs s))))"
  by (induction xs arbitrary: s) (simp_all add: split_beta)

text \<open>
  The result at a position is what the operation returns for the item there, on the
  state that the items before it have left.
\<close>

lemma sequentially_nth:
  assumes "i < length xs"
  shows "fst (sequentially f xs s) ! i = fst (f (xs ! i) (snd (sequentially f (take i xs) s)))"
  using assms
proof (induction xs arbitrary: i s)
  case Nil
  then show ?case by simp
next
  case (Cons x xs)
  show ?case
  proof (cases i)
    case 0
    then show ?thesis by (simp add: split_beta)
  next
    case (Suc j)
    with Cons.prems have "j < length xs" by simp
    from Cons.IH [OF this, of "snd (f x s)"] Suc show ?thesis
      by (simp add: split_beta)
  qed
qed

lemma loadAllLoop_sequentially:
  "loadAllLoop env exts acc st =
     (acc @ map2 loadAllEntry exts
              (fst (sequentially (\<lambda>ext. loadExtensionViaRDP env (Some (ext_path ext))) exts st)),
      snd (sequentially (\<lambda>ext. loadExtensionViaRDP env (Some (ext_path ext))) exts st))"
proof (induction exts arbitrary: acc st)
  case Nil
  show ?case by simp
next
  case (Cons ext exts)
  obtain r0 st1 where l: "loadExtensionViaRDP env (Some (ext_path ext)) st = (r0, st1)"
    by (cases "loadExtensionViaRDP env (Some (ext_path ext)) st")
  then show ?case
    by (cases r0) (simp_all add: Cons.IH split_beta loadAllEntry_def)
qed

lemma unloadAllLoop_sequentially:
  "unloadAllLoop env keys acc st =
     (acc @ map2 unloadAllEntry keys (fst (sequentially (unloadExtension env) keys st)),
      snd (sequentially (unloadExtension env) keys st))"
proof (induction keys arbitrary: acc st)
  case Nil
  show ?case by simp
next
  case (Cons k keys)
  obtain r0 st1 where l: "unloadExtension env k st = (r0, st1)"
    by (cases "unloadExtension env k st")
  then show ?case
    by (simp add: Cons.IH split_beta unloadAllEntry_def)
qed

lemma loadAllEntry_success:
  "truthy (obj_get (loadAllEntry ext outcome) ''success'') = (\<not> isl outcome)"
  by (cases outcome) (simp_all add: loadAllEntry_def obj_get_Cons)

lemma loadAllEntry_name: "obj_get (loadAllEntry ext outcome) ''name'' = ext_name ext"
  by (cases outcome) (simp_all add: loadAllEntry_def obj_get_Cons)

lemma filter_map2:
  assumes "length xs = length ys" and "\<And>x y. P (f x y) = Q y"
  shows "length (filter P (map2 f xs ys)) = length (filter Q ys)"
  using assms(1) by (induction xs ys rule: list_induct2) (simp_all add: assms(2))

lemma delete_absent:
  assumes "k \<notin> fst ` set al"
  shows "AList.delete k al = al"
  using assms by (induction al) auto

lemma sequentially_unloadExtension:
  assumes "distinct (map fst (loadedExtensions st))"
  shows "sequentially (unloadExtension env) (map fst (loadedExtensions st)) st =
           (map (\<lambda>k. [(''success'', JBool True)]) (map fst (loadedExtensions st)),
            st\<lparr>loadedExtensions := [],
               world := foldl (killRecorded env) (world st) (map snd (loadedExtensions st))\<rparr>)"
  using assms
proof (induction "loadedExtensions st" arbitrary: st)
  case Nil
  from Nil.hyps [symmetric] show ?case by simp
next
  case (Cons kl rest)
  obtain k l where kl: "kl = (k, l)" by (cases kl)
  from Cons.hyps(2) kl have reg: "loadedExtensions st = (k, l) # rest" by simp
  from Cons.prems reg have nk: "k \<notin> fst ` set rest" and d: "distinct (map fst rest)"
    by simp_all
  define st1 where "st1 = st\<lparr>loadedExtensions := rest, world := killRecorded env (world st) l\<rparr>"
  from reg nk have u: "unloadExtension env k st = ([(''success'', JBool True)], st1)"
    by (simp add: unloadExtension_def Let_def st1_def killRecorded_def delete_absent)
  have reg1: "rest = loadedExtensions st1" by (simp add: st1_def)
  from d reg1 have d1: "distinct (map fst (loadedExtensions st1))" by simp
  from Cons.hyps(1) [OF reg1 d1] u reg show ?case
    by (simp add: st1_def)
qed

text \<open>
  C6, as amended. \<open>load_all\<close> scans afresh and applies \<open>loadExtensionViaRDP\<close> to the
  candidates of the scan one after the other, each on the state the one before left,
  whether the loads before it resolved or were rejected: the entry of a candidate in
  \<open>results\<close> bears its name and tells how its own load ended, with the error of a
  rejection; \<open>totalLoaded\<close> and \<open>totalFailed\<close> count the loads that resolved and those
  that were rejected, which add up to the size of the scan; and the helper is left in
  the state of the last load. \<open>unload_all\<close> applies \<open>unloadExtension\<close> to the keys
  of the registry one after the other in the same way: its frame holds \<open>type\<close> and
  \<open>results\<close> only, the entry of a key being what its unload returned under its path,
  and no counts. The keys of a registry being distinct, every one of these unloads
  succeeds, the process of every record has been sent the termination signal in the
  order of the registry, and the registry is empty afterwards.
\<close>

theorem load_all_and_unload_all:
  "(case sequentially (\<lambda>ext. loadExtensionViaRDP env (Some (ext_path ext)))
           (scanExtensionsFolder env (config st) (world st)) st of
      (outcomes, st1) \<Rightarrow>
        handleMessage env \<lparr>action = Some ''load_all'', path = p\<rparr> st =
          sendMessage
            [(''type'', JStr ''load_all_result''),
             (''results'',
                JArr (map JObj (map2 loadAllEntry
                                  (scanExtensionsFolder env (config st) (world st)) outcomes))),
             (''totalLoaded'', JNum (int (length (filter (\<lambda>outcome. \<not> isl outcome) outcomes)))),
             (''totalFailed'', JNum (int (length (filter isl outcomes))))]
            st1 \<and>
        length outcomes = length (scanExtensionsFolder env (config st) (world st)) \<and>
        (\<forall>i < length outcomes.
           outcomes ! i =
             fst (loadExtensionViaRDP env
                    (Some (ext_path (scanExtensionsFolder env (config st) (world st) ! i)))
                    (snd (sequentially (\<lambda>ext. loadExtensionViaRDP env (Some (ext_path ext)))
                            (take i (scanExtensionsFolder env (config st) (world st))) st)))) \<and>
        map (\<lambda>r. obj_get r ''name'')
            (map2 loadAllEntry (scanExtensionsFolder env (config st) (world st)) outcomes)
          = map ext_name (scanExtensionsFolder env (config st) (world st)) \<and>
        length (filter (\<lambda>outcome. \<not> isl outcome) outcomes) + length (filter isl outcomes)
          = length (scanExtensionsFolder env (config st) (world st))) \<and>
   (case sequentially (unloadExtension env) (map fst (loadedExtensions st)) st of
      (unloadResults, st1) \<Rightarrow>
        handleMessage env \<lparr>action = Some ''unload_all'', path = p\<rparr> st =
          sendMessage
            [(''type'', JStr ''unload_all_result''),
             (''results'',
                JArr (map JObj (map2 unloadAllEntry (map fst (loadedExtensions st)) unloadResults)))]
            st1 \<and>
        length unloadResults = length (loadedExtensions st)) \<and>
   (distinct (map fst (loadedExtensions st)) \<longrightarrow>
      handleMessage env \<lparr>action = Some ''unload_all'', path = p\<rparr> st =
        sendMessage
          [(''type'', JStr ''unload_all_result''),
           (''results'',
              JArr (map (\<lambda>k. JObj [(''path'', path_val k), (''success'', JBool True)])
                      (map fst (loadedExtensions st))))]
          (st\<lparr>loadedExtensions := [],
              world := foldl (killRecorded env) (world st) (map snd (loadedExtensions st))\<rparr>))"
proof (intro conjI impI)
  define exts where "exts = scanExtensionsFolder env (config st) (world st)"
  define load where "load = (\<lambda>ext :: descriptor. loadExtensionViaRDP env (Some (ext_path ext)))"
  obtain outcomes st1 where s: "sequentially load exts st = (outcomes, st1)"
    by (cases "sequentially load exts st")
  from sequentially_length [of load exts st] s have len: "length outcomes = length exts"
    by simp
  have t: "length (filter (\<lambda>r. truthy (obj_get r ''success'')) (map2 loadAllEntry exts outcomes))
      = length (filter (\<lambda>outcome. \<not> isl outcome) outcomes)"
    using len [symmetric] by (rule filter_map2) (rule loadAllEntry_success)
  have f: "length (filter (\<lambda>r. \<not> truthy (obj_get r ''success'')) (map2 loadAllEntry exts outcomes))
      = length (filter isl outcomes)"
    using len [symmetric] by (rule filter_map2) (simp add: loadAllEntry_success)
  have h: "handleMessage env \<lparr>action = Some ''load_all'', path = p\<rparr> st = loadAllCase env st"
    by (simp add: handleMessage_def)
  have 1: "handleMessage env \<lparr>action = Some ''load_all'', path = p\<rparr> st =
      sendMessage
        [(''type'', JStr ''load_all_result''),
         (''results'', JArr (map JObj (map2 loadAllEntry exts outcomes))),
         (''totalLoaded'', JNum (int (length (filter (\<lambda>outcome. \<not> isl outcome) outcomes)))),
         (''totalFailed'', JNum (int (length (filter isl outcomes))))]
        st1"
    unfolding h loadAllCase_def Let_def exts_def [symmetric]
      loadAllLoop_sequentially load_def [symmetric] s fst_conv snd_conv prod.case append_Nil t f
    by (rule refl)
  have 2: "\<forall>i < length outcomes.
      outcomes ! i = fst (loadExtensionViaRDP env (Some (ext_path (exts ! i)))
                            (snd (sequentially load (take i exts) st)))"
  proof (intro allI impI)
    fix i
    assume "i < length outcomes"
    with len have "i < length exts" by simp
    from sequentially_nth [OF this, of load st] s
    show "outcomes ! i = fst (loadExtensionViaRDP env (Some (ext_path (exts ! i)))
                            (snd (sequentially load (take i exts) st)))"
      by (simp add: load_def)
  qed
  from len have 3: "map (\<lambda>r. obj_get r ''name'') (map2 loadAllEntry exts outcomes) = map ext_name exts"
    by (induction outcomes exts rule: list_induct2) (simp_all add: loadAllEntry_name)
  have "length (filter (\<lambda>outcome. \<not> isl outcome) outcomes) + length (filter isl outcomes)
      = length outcomes"
    using sum_length_filter_compl [of isl outcomes] by simp
  with len have 4: "length (filter (\<lambda>outcome. \<not> isl outcome) outcomes) + length (filter isl outcomes)
      = length exts"
    by simp
  from 1 len 2 3 4 s
  show "case sequentially (\<lambda>ext. loadExtensionViaRDP env (Some (ext_path ext)))
           (scanExtensionsFolder env (config st) (world st)) st of
      (outcomes, st1) \<Rightarrow>
        handleMessage env \<lparr>action = Some ''load_all'', path = p\<rparr> st =
          sendMessage
            [(''type'', JStr ''load_all_result''),
             (''results'',
                JArr (map JObj (map2 loadAllEntry
                                  (scanExtensionsFolder env (config st) (world st)) outcomes))),
             (''totalLoaded'', JNum (int (length (filter (\<lambda>outcome. \<not> isl outcome) outcomes)))),
             (''totalFailed'', JNum (int (length (filter isl outcomes))))]
            st1 \<and>
        length outcomes = length (scanExtensionsFolder env (config st) (world st)) \<and>
        (\<forall>i < length outcomes.
           outcomes ! i =
             fst (loadExtensionViaRDP env
                    (Some (ext_path (scanExtensionsFolder env (config st) (world st) ! i)))
                    (snd (sequentially (\<lambda>ext. loadExtensionViaRDP env (Some (ext_path ext)))
                            (take i (scanExtensionsFolder env (config st) (world st))) st)))) \<and>
        map (\<lambda>r. obj_get r ''name'')
            (map2 loadAllEntry (scanExtensionsFolder env (config st) (world st)) outcomes)
          = map ext_name (scanExtensionsFolder env (config st) (world st)) \<and>
        length (filter (\<lambda>outcome. \<not> isl outcome) outcomes) + length (filter isl outcomes)
          = length (scanExtensionsFolder env (config st) (world st))"
    unfolding exts_def [symmetric] load_def [symmetric] by (simp only: prod.case simp_thms)
next
  obtain unloadResults st1
    where s: "sequentially (unloadExtension env) (map fst (loadedExtensions st)) st = (unloadResults, st1)"
    by (cases "sequentially (unloadExtension env) (map fst (loadedExtensions st)) st")
  from sequentially_length [of "unloadExtension env" "map fst (loadedExtensions st)" st] s
  have len: "length unloadResults = length (loadedExtensions st)"
    by simp
  from s have 1: "handleMessage env \<lparr>action = Some ''unload_all'', path = p\<rparr> st =
      sendMessage
        [(''type'', JStr ''unload_all_result''),
         (''results'',
            JArr (map JObj (map2 unloadAllEntry (map fst (loadedExtensions st)) unloadResults)))]
        st1"
    unfolding handleMessage_def unloadAllCase_def unloadAllLoop_sequentially
    by simp
  from 1 len s
  show "case sequentially (unloadExtension env) (map fst (loadedExtensions st)) st of
      (unloadResults, st1) \<Rightarrow>
        handleMessage env \<lparr>action = Some ''unload_all'', path = p\<rparr> st =
          sendMessage
            [(''type'', JStr ''unload_all_result''),
             (''results'',
                JArr (map JObj (map2 unloadAllEntry (map fst (loadedExtensions st)) unloadResults)))]
            st1 \<and>
        length unloadResults = length (loadedExtensions st)"
    by (simp only: prod.case simp_thms)
next
  assume d: "distinct (map fst (loadedExtensions st))"
  have hu: "handleMessage env \<lparr>action = Some ''unload_all'', path = p\<rparr> st = unloadAllCase env st"
    by (simp add: handleMessage_def)
  define ks where "ks = map fst (loadedExtensions st)"
  define st' where "st' = st\<lparr>loadedExtensions := [],
      world := foldl (killRecorded env) (world st) (map snd (loadedExtensions st))\<rparr>"
  have e: "map2 unloadAllEntry ks (map (\<lambda>k. [(''success'', JBool True)]) ks)
      = map (\<lambda>k. [(''path'', path_val k), (''success'', JBool True)]) ks"
    by (induction ks) (simp_all add: unloadAllEntry_def spread_def)
  from sequentially_unloadExtension [OF d, of env]
  have su: "sequentially (unloadExtension env) ks st = (map (\<lambda>k. [(''success'', JBool True)]) ks, st')"
    by (simp only: ks_def st'_def)
  have "unloadAllCase env st =
      sendMessage
        [(''type'', JStr ''unload_all_result''),
         (''results'', JArr (map JObj (map (\<lambda>k. [(''path'', path_val k), (''success'', JBool True)]) ks)))]
        st'"
    by (simp only: unloadAllCase_def unloadAllLoop_sequentially ks_def [symmetric] su
        fst_conv snd_conv prod.case append_Nil e)
  then have "handleMessage env \<lparr>action = Some ''unload_all'', path = p\<rparr> st =
      sendMessage
        [(''type'', JStr ''unload_all_result''),
         (''results'', JArr (map (\<lambda>k. JObj [(''path'', path_val k), (''success'', JBool True)]) ks))]
        st'"
    by (simp add: hu comp_def)
  then show "handleMessage env \<lparr>action = Some ''unload_all'', path = p\<rparr> st =
        sendMessage
          [(''type'', JStr ''unload_all_result''),
           (''results'',
              JArr (map (\<lambda>k. JObj [(''path'', path_val k), (''success'', JBool True)])
                      (map fst (loadedExtensions st))))]
          (st\<lparr>loadedExtensions := [],
              world := foldl (killRecorded env) (world st) (map snd (loadedExtensions st))\<rparr>)"
    by (simp only: ks_def st'_def)
qed

text \<open>
  The amended C6 on the concrete machines. Without the loader tool and with the manifest
  of \<open>/ext/a\<close> that cannot be copied, \<open>load_all\<close> over the two candidates \<open>A\<close> and
  \<open>C\<close> reports the failure of the first with its error, goes on to prepare a profile
  for the second and counts one of each. With the loader tool, \<open>load_all\<close> spawns it
  twice and leaves both records in the registry, the second process being the one
  spawned after the first. \<open>unload_all\<close> on that registry, whose keys are distinct,
  reports both unloads and empties it; the errors of \<open>kill\<close> are dropped.
\<close>

theorem load_all_and_unload_all_witness:
  "handleMessage linux_env_locked \<lparr>action = Some ''load_all'', path = None\<rparr> folder_set =
     sendMessage
       [(''type'', JStr ''load_all_result''),
        (''results'',
           JArr [JObj [(''name'', JStr ''A''), (''success'', JBool False),
                       (''error'', JStr ''EACCES: permission denied'')],
                 JObj [(''name'', JStr ''C''), (''success'', JBool True)]]),
        (''totalLoaded'', JNum 1), (''totalFailed'', JNum 1)]
       folder_set \<and>
   handleMessage linux_env \<lparr>action = Some ''load_all'', path = None\<rparr> folder_set =
     sendMessage
       [(''type'', JStr ''load_all_result''),
        (''results'',
           JArr [JObj [(''name'', JStr ''A''), (''success'', JBool True)],
                 JObj [(''name'', JStr ''C''), (''success'', JBool True)]]),
        (''totalLoaded'', JNum 2), (''totalFailed'', JNum 0)]
       (folder_set\<lparr>loadedExtensions :=
                      [(Some ''/ext/a'', \<lparr>process = Some 0, loadMethod = ''web-ext''\<rparr>),
                       (Some ''/ext/c'', \<lparr>process = Some 1, loadMethod = ''web-ext''\<rparr>)],
                    world := 2\<rparr>) \<and>
   distinct (map fst (loadedExtensions
      (folder_set\<lparr>loadedExtensions :=
                     [(Some ''/ext/a'', \<lparr>process = Some 0, loadMethod = ''web-ext''\<rparr>),
                      (Some ''/ext/c'', \<lparr>process = Some 1, loadMethod = ''web-ext''\<rparr>)],
                   world := 2\<rparr>))) \<and>
   handleMessage linux_env \<lparr>action = Some ''unload_all'', path = None\<rparr>
       (folder_set\<lparr>loadedExtensions :=
                      [(Some ''/ext/a'', \<lparr>process = Some 0, loadMethod = ''web-ext''\<rparr>),
                       (Some ''/ext/c'', \<lparr>process = Some 1, loadMethod = ''web-ext''\<rparr>)],
                    world := 2\<rparr>) =
     sendMessage
       [(''type'', JStr ''unload_all_result''),
        (''results'',
           JArr [JObj [(''path'', JStr ''/ext/a''), (''success'', JBool True)],
                 JObj [(''path'', JStr ''/ext/c''), (''success'', JBool True)]])]
       (folder_set\<lparr>loadedExtensions := [], world := 2\<rparr>)"
proof -
  define A where "A = \<lparr>ext_name = JStr ''A'', ext_version = JStr ''1.0'', ext_description = JStr [],
       ext_path = ''/ext/a'', ext_folder = ''a'', ext_manifestVersion = JNum 2\<rparr>"
  define C where "C = \<lparr>ext_name = JStr ''C'', ext_version = JStr ''0.0.0'', ext_description = JStr [],
       ext_path = ''/ext/c'', ext_folder = ''c'', ext_manifestVersion = JNum 2\<rparr>"
  define st2 where "st2 = folder_set\<lparr>loadedExtensions :=
                      [(Some ''/ext/a'', \<lparr>process = Some 0, loadMethod = ''web-ext''\<rparr>),
                       (Some ''/ext/c'', \<lparr>process = Some 1, loadMethod = ''web-ext''\<rparr>)],
                    world := 2\<rparr>"
  have fp: "obj_get (config folder_set) ''firefoxPath'' = JStr []"
    by (simp add: folder_set_def initial_def obj_get_Cons)
  have w: "world folder_set = 0"
    by (simp add: folder_set_def initial_def)
  have sc1: "scanExtensionsFolder linux_env_locked (config folder_set) (world folder_set) = [A, C]"
    unfolding A_def C_def by (rule linux_locked_scan) (rule folder_set_fields)
  have sc2: "scanExtensionsFolder linux_env (config folder_set) (world folder_set) = [A, C]"
    unfolding A_def C_def by (rule linux_scan) (rule folder_set_fields)
  have p: "ext_path A = ''/ext/a''" "ext_path C = ''/ext/c''"
    "ext_name A = JStr ''A''" "ext_name C = JStr ''C''"
    by (simp_all add: A_def C_def)
  have sq1: "sequentially (\<lambda>ext. loadExtensionViaRDP linux_env_locked (Some (ext_path ext))) [A, C] folder_set
      = ([Inl ''EACCES: permission denied'',
          Inr [(''success'', JBool True), (''method'', JStr ''profile''),
               (''profilePath'', JStr (''/tmp/rapunzel-profile-'' @ decimal (1700000000000 + world folder_set))),
               (''note'', JStr ''Extension prepared in temporary profile'')]],
         folder_set)"
    by (simp add: p linux_locked_load_a [OF fp] linux_locked_load_c [OF fp])
  have sq2: "sequentially (\<lambda>ext. loadExtensionViaRDP linux_env (Some (ext_path ext))) [A, C] folder_set
      = ([Inr [(''success'', JBool True), (''method'', JStr ''web-ext'')],
          Inr [(''success'', JBool True), (''method'', JStr ''web-ext'')]],
         st2)"
    by (simp add: p linux_load folder_set_fields w st2_def)
  from load_all_and_unload_all [where env = linux_env_locked and st = folder_set and p = None,
      THEN conjunct1, unfolded sc1 sq1 prod.case, THEN conjunct1]
  have a: "handleMessage linux_env_locked \<lparr>action = Some ''load_all'', path = None\<rparr> folder_set =
     sendMessage
       [(''type'', JStr ''load_all_result''),
        (''results'',
           JArr [JObj [(''name'', JStr ''A''), (''success'', JBool False),
                       (''error'', JStr ''EACCES: permission denied'')],
                 JObj [(''name'', JStr ''C''), (''success'', JBool True)]]),
        (''totalLoaded'', JNum 1), (''totalFailed'', JNum 1)]
       folder_set"
    by (simp add: loadAllEntry_def p)
  from load_all_and_unload_all [where env = linux_env and st = folder_set and p = None,
      THEN conjunct1, unfolded sc2 sq2 prod.case, THEN conjunct1]
  have b: "handleMessage linux_env \<lparr>action = Some ''load_all'', path = None\<rparr> folder_set =
     sendMessage
       [(''type'', JStr ''load_all_result''),
        (''results'',
           JArr [JObj [(''name'', JStr ''A''), (''success'', JBool True)],
                 JObj [(''name'', JStr ''C''), (''success'', JBool True)]]),
        (''totalLoaded'', JNum 2), (''totalFailed'', JNum 0)]
       st2"
    by (simp add: loadAllEntry_def p)
  have d: "distinct (map fst (loadedExtensions st2))"
    by (simp add: st2_def)
  from load_all_and_unload_all [where env = linux_env and st = st2 and p = None, THEN conjunct2, THEN conjunct2, rule_format, OF d]
  have c: "handleMessage linux_env \<lparr>action = Some ''unload_all'', path = None\<rparr> st2 =
     sendMessage
       [(''type'', JStr ''unload_all_result''),
        (''results'',
           JArr [JObj [(''path'', JStr ''/ext/a''), (''success'', JBool True)],
                 JObj [(''path'', JStr ''/ext/c''), (''success'', JBool True)]])]
       (folder_set\<lparr>loadedExtensions := [], world := 2\<rparr>)"
    by (simp add: st2_def path_val_def killRecorded_def)
  from a b d c show ?thesis
    unfolding st2_def by (intro conjI)
qed

text \<open>
  C6 as the claim states it fails: on the concrete machine, the frame that answers
  \<open>unload_all\<close> after \<open>/ext/a\<close> was loaded has the two properties \<open>type\<close> and
  \<open>results\<close> and carries no count of successes or failures, where the frame
  that answers \<open>load_all\<close> has \<open>totalLoaded\<close> and \<open>totalFailed\<close>.
\<close>

theorem unload_all_frame_has_no_counts:
  "map fst (last (stdout (handleMessage linux_env \<lparr>action = Some ''unload_all'', path = None\<rparr> one_loaded)))
     = [''type'', ''results''] \<and>
   map fst (last (stdout (handleMessage linux_env \<lparr>action = Some ''load_all'', path = None\<rparr> one_loaded)))
     = [''type'', ''results'', ''totalLoaded'', ''totalFailed'']"
proof -
  have "unloadExtension linux_env (Some ''/ext/a'') one_loaded
     = ([(''success'', JBool True)], one_loaded\<lparr>loadedExtensions := [], world := 1\<rparr>)"
    by (simp add: unloadExtension_def one_loaded_def)
  then have a: "map fst (last (stdout (handleMessage linux_env
       \<lparr>action = Some ''unload_all'', path = None\<rparr> one_loaded))) = [''type'', ''results'']"
    by (simp add: handleMessage_def unloadAllCase_def one_loaded_def [THEN arg_cong, of loadedExtensions])
  obtain rs st1 where l: "loadAllLoop linux_env
      (scanExtensionsFolder linux_env (config one_loaded) (world one_loaded)) [] one_loaded = (rs, st1)"
    by (cases "loadAllLoop linux_env
      (scanExtensionsFolder linux_env (config one_loaded) (world one_loaded)) [] one_loaded")
  then have b: "map fst (last (stdout (handleMessage linux_env
       \<lparr>action = Some ''load_all'', path = None\<rparr> one_loaded)))
     = [''type'', ''results'', ''totalLoaded'', ''totalFailed'']"
    by (simp add: handleMessage_def loadAllCase_def Let_def)
  from a b show ?thesis
    by (intro conjI)
qed

end
